theory Spec2Isabelle
  imports Main "HOL-Library.Multiset"
begin


section \<open>Strings and numbers of the host language\<close>

text \<open>
  A string of the program is modelled as the list of its code units. The model covers the
  code units below 256 (the Latin-1 range), one \<^typ>\<open>char\<close> each. The numbers the code
  computes with are word counts, explicit \<open>order\<close> values and millisecond time stamps; they
  are modelled as \<^typ>\<open>nat\<close> and \<^typ>\<open>int\<close>, and the one non-number the code can meet
  (\<open>NaN\<close>, the time of an unparsable date) is a value of its own.
\<close>

definition code :: "char \<Rightarrow> nat" where
  "code c = of_char c"

definition isSpace :: "char \<Rightarrow> bool" where
  \<comment> \<open>The class \<open>\s\<close> of a regular expression, on the code units below 256: tab, line feed,
      vertical tab, form feed, carriage return, space and the no-break space.\<close>
  "isSpace c = (code c \<in> {9, 10, 11, 12, 13, 32, 160})"

definition isLowerAlnum :: "char \<Rightarrow> bool" where
  \<comment> \<open>The class \<open>[a-z0-9]\<close>.\<close>
  "isLowerAlnum c = ((97 \<le> code c \<and> code c \<le> 122) \<or> (48 \<le> code c \<and> code c \<le> 57))"

definition toLowerCaseChar :: "char \<Rightarrow> char" where
  \<comment> \<open>\<open>A\<close>..\<open>Z\<close> and the Latin-1 capitals (192..222 without the multiplication sign 215)
      move up by 32; every other code unit below 256 is kept.\<close>
  "toLowerCaseChar c =
     (if (65 \<le> code c \<and> code c \<le> 90) \<or> (192 \<le> code c \<and> code c \<le> 222 \<and> code c \<noteq> 215)
      then char_of (code c + 32) else c)"

definition toLowerCase :: "string \<Rightarrow> string" where
  "toLowerCase s = map toLowerCaseChar s"

definition digitChar :: "nat \<Rightarrow> char" where
  "digitChar d = char_of (48 + d)"

fun numberToString :: "nat \<Rightarrow> string" where
  \<comment> \<open>The decimal text a template literal gives for a non-negative whole number.\<close>
  "numberToString n =
     (if n < 10 then [digitChar n] else numberToString (n div 10) @ [digitChar (n mod 10)])"

declare numberToString.simps [simp del]

section \<open>Reading time\<close>

text \<open>
  \<open>content.split(/\s+/)\<close>: the pieces of the text between the maximal runs of white space.
  A run at the very start or the very end leaves an empty piece on that side, and the empty
  text is one empty piece.
\<close>

function splitSpaces :: "string \<Rightarrow> string list" where
  "splitSpaces s =
     (case dropWhile (\<lambda>c. \<not> isSpace c) s of
        [] \<Rightarrow> [s]
      | _ # rest \<Rightarrow> takeWhile (\<lambda>c. \<not> isSpace c) s # splitSpaces (dropWhile isSpace rest))"
  by pat_completeness auto
termination
proof (relation "measure length")
  show "wf (measure length)" by simp
next
  fix s :: string and c rest
  assume h: "dropWhile (\<lambda>c. \<not> isSpace c) s = c # rest"
  have "length (dropWhile isSpace rest) \<le> length rest"
    by (rule length_dropWhile_le)
  moreover have "length (c # rest) \<le> length s"
    using length_dropWhile_le [of "\<lambda>c. \<not> isSpace c" s] h by simp
  ultimately show "(dropWhile isSpace rest, s) \<in> measure length"
    by simp
qed

declare splitSpaces.simps [simp del]

definition ceilDiv :: "nat \<Rightarrow> nat \<Rightarrow> nat" where
  \<comment> \<open>\<open>Math.ceil(a / b)\<close> for whole \<open>a\<close> and positive whole \<open>b\<close>.\<close>
  "ceilDiv a b = (a + b - 1) div b"

definition calculateReadingTime :: "string \<Rightarrow> string" where
  "calculateReadingTime content =
     (let wordsPerMinute = 200;
          wordCount = length (splitSpaces content);
          minutes = ceilDiv wordCount wordsPerMinute
      in numberToString minutes @ '' min read'')"

definition wordsOf :: "string \<Rightarrow> string list" where
  \<comment> \<open>The words of a text: its maximal runs of characters that are not white space.\<close>
  "wordsOf s = filter (\<lambda>w. w \<noteq> []) (splitSpaces s)"

section \<open>Heading anchors\<close>

text \<open>
  The identifier \<open>extractTableOfContents\<close> derives from a heading title:
  \<^verbatim>\<open>title.toLowerCase().replace(/[^a-z0-9]+/g, "-").replace(/^-|-$/g, "")\<close>.
\<close>

function replaceNonAlnumRuns :: "string \<Rightarrow> string" where
  \<comment> \<open>\<open>.replace(/[^a-z0-9]+/g, "-")\<close>: the match is greedy, so it takes a whole run.\<close>
  "replaceNonAlnumRuns [] = []"
| "replaceNonAlnumRuns (c # cs) =
     (if isLowerAlnum c then c # replaceNonAlnumRuns cs
      else CHR ''-'' # replaceNonAlnumRuns (dropWhile (\<lambda>d. \<not> isLowerAlnum d) cs))"
  by pat_completeness auto
termination
  by (relation "measure length") (auto simp: less_Suc_eq_le length_dropWhile_le)

definition stripEdgeDashes :: "string \<Rightarrow> string" where
  \<comment> \<open>\<open>.replace(/^-|-$/g, "")\<close>: a dash at the very start is removed, then a dash at the
      very end of what is left.\<close>
  "stripEdgeDashes s =
     (let s1 = (case s of [] \<Rightarrow> [] | c # cs \<Rightarrow> if c = CHR ''-'' then cs else s)
      in if s1 \<noteq> [] \<and> last s1 = CHR ''-'' then butlast s1 else s1)"

definition headingId :: "string \<Rightarrow> string" where
  "headingId title = stripEdgeDashes (replaceNonAlnumRuns (toLowerCase title))"

text \<open>
  The identifier as the specification words it: the alphanumeric words of the lower-cased
  title (its maximal runs of \<open>[a-z0-9]\<close>), joined by one separator, none at either end.
\<close>

function alnumWords :: "string \<Rightarrow> string list" where
  "alnumWords s =
     (case dropWhile (\<lambda>c. \<not> isLowerAlnum c) s of
        [] \<Rightarrow> []
      | c # cs \<Rightarrow> takeWhile isLowerAlnum (c # cs) # alnumWords (dropWhile isLowerAlnum cs))"
  by pat_completeness auto
termination
proof (relation "measure length")
  show "wf (measure length)" by simp
next
  fix s :: string and c cs
  assume h: "dropWhile (\<lambda>c. \<not> isLowerAlnum c) s = c # cs"
  have "length (dropWhile isLowerAlnum cs) \<le> length cs"
    by (rule length_dropWhile_le)
  moreover have "length (c # cs) \<le> length s"
    using length_dropWhile_le [of "\<lambda>c. \<not> isLowerAlnum c" s] h by simp
  ultimately show "(dropWhile isLowerAlnum cs, s) \<in> measure length"
    by simp
qed

declare alnumWords.simps [simp del]

fun joinDash :: "string list \<Rightarrow> string" where
  "joinDash [] = []"
| "joinDash [w] = w"
| "joinDash (w # v # ws) = w @ CHR ''-'' # joinDash (v # ws)"

definition specHeadingId :: "string \<Rightarrow> string" where
  "specHeadingId title = joinDash (alnumWords (toLowerCase title))"

section \<open>Icon lookup of the venture card\<close>

text \<open>
  \<open>iconMap\<close> is an object literal, and \<open>iconMap[venture.icon]\<close> is a property read: it finds
  the nine own properties of the literal and, for any other key, the properties the literal
  inherits from \<open>Object.prototype\<close>. A key found nowhere reads as \<open>undefined\<close>.
\<close>

datatype icon = Scale | Wallet | Church | TrendingUp | Zap | Users | Leaf | Heart | BookOpen

datatype jsValue =
    Undefined
  | Component icon
  | Inherited string  \<comment> \<open>the member of \<open>Object.prototype\<close> of that name: a function or an object\<close>

definition iconMapOwn :: "(string \<times> icon) list" where
  "iconMapOwn =
     [(''scale'', Scale), (''wallet'', Wallet), (''church'', Church),
      (''trending'', TrendingUp), (''zap'', Zap), (''users'', Users),
      (''leaf'', Leaf), (''heart'', Heart), (''book'', BookOpen)]"

definition objectPrototypeKeys :: "string list" where
  "objectPrototypeKeys =
     [''constructor'', ''__defineGetter__'', ''__defineSetter__'', ''hasOwnProperty'',
      ''__lookupGetter__'', ''__lookupSetter__'', ''isPrototypeOf'', ''propertyIsEnumerable'',
      ''toString'', ''valueOf'', ''__proto__'', ''toLocaleString'']"

definition iconMapGet :: "string \<Rightarrow> jsValue" where
  "iconMapGet key =
     (case map_of iconMapOwn key of
        Some i \<Rightarrow> Component i
      | None \<Rightarrow> if key \<in> set objectPrototypeKeys then Inherited key else Undefined)"

fun truthy :: "jsValue \<Rightarrow> bool" where
  "truthy Undefined = False"
| "truthy (Component _) = True"
| "truthy (Inherited _) = True"

definition ventureCardIcon :: "string \<Rightarrow> jsValue" where
  \<comment> \<open>\<open>const Icon = iconMap[venture.icon] || Scale\<close>\<close>
  "ventureCardIcon venture_icon =
     (let v = iconMapGet venture_icon in if truthy v then v else Component Scale)"

section \<open>The file system the loaders read\<close>

text \<open>
  A path is its list of components below \<open>process.cwd()\<close>; the empty path is the working
  directory itself. A state of the file system gives each path the node found there, if
  any: a file with its text, or a directory with the names \<open>readdirSync\<close> enumerates, in
  that order. The four calls of the \<open>fs\<close> module the loaders make are modelled with the
  errors they throw.
\<close>

type_synonym path = "string list"

datatype node = File string | Dir "string list"

type_synonym fs = "path \<Rightarrow> node option"

datatype error = ENOENT | ENOTDIR | EISDIR | EEXIST | ParseError

definition existsSync :: "fs \<Rightarrow> path \<Rightarrow> bool" where
  "existsSync fs p = (fs p \<noteq> None)"

definition readdirSync :: "fs \<Rightarrow> path \<Rightarrow> error + string list" where
  "readdirSync fs p =
     (case fs p of
        None \<Rightarrow> Inl ENOENT
      | Some (File _) \<Rightarrow> Inl ENOTDIR
      | Some (Dir names) \<Rightarrow> Inr names)"

definition readFileSync :: "fs \<Rightarrow> path \<Rightarrow> error + string" where
  "readFileSync fs p =
     (case fs p of
        None \<Rightarrow> Inl ENOENT
      | Some (Dir _) \<Rightarrow> Inl EISDIR
      | Some (File text) \<Rightarrow> Inr text)"

text \<open>
  \<open>fs.mkdirSync(p, { recursive: true })\<close> walks down the path from the working directory
  and creates every directory that is missing. It throws when a component of the path is
  a file. The state it leaves is returned with the outcome.
\<close>

fun mkdirFrom :: "path \<Rightarrow> string list \<Rightarrow> fs \<Rightarrow> fs \<times> (error + unit)" where
  "mkdirFrom pre [] fs = (fs, Inr ())"
| "mkdirFrom pre (c # cs) fs =
     (case fs (pre @ [c]) of
        Some (Dir _) \<Rightarrow> mkdirFrom (pre @ [c]) cs fs
      | Some (File _) \<Rightarrow> (fs, Inl (if cs = [] then EEXIST else ENOTDIR))
      | None \<Rightarrow>
          (case fs pre of
             Some (Dir names) \<Rightarrow>
               mkdirFrom (pre @ [c]) cs (fs(pre \<mapsto> Dir (names @ [c]), pre @ [c] \<mapsto> Dir []))
           | _ \<Rightarrow> (fs, Inl ENOTDIR)))"

definition mkdirSync :: "path \<Rightarrow> fs \<Rightarrow> fs \<times> (error + unit)" where
  "mkdirSync p fs = mkdirFrom [] p fs"

definition endsWith :: "string \<Rightarrow> string \<Rightarrow> bool" where
  "endsWith s suffix =
     (length suffix \<le> length s \<and> drop (length s - length suffix) s = suffix)"

definition stripMdx :: "string \<Rightarrow> string" where
  \<comment> \<open>\<open>fileName.replace(/\.mdx$/, "")\<close>\<close>
  "stripMdx fileName =
     (if endsWith fileName ''.mdx'' then take (length fileName - 4) fileName else fileName)"

definition slugsOf :: "string list \<Rightarrow> string list" where
  \<comment> \<open>\<open>.filter((f) => f.endsWith(".mdx")).map((f) => f.replace(/\.mdx$/, ""))\<close>\<close>
  "slugsOf fileNames = map stripMdx (filter (\<lambda>fileName. endsWith fileName ''.mdx'') fileNames)"

definition mdxPath :: "path \<Rightarrow> string \<Rightarrow> path" where
  \<comment> \<open>\<open>path.join(dir, `${slug}.mdx`)\<close>, for a slug that holds no path separator, as every
      slug taken from a directory listing does.\<close>
  "mdxPath dir slug = dir @ [slug @ ''.mdx'']"


section \<open>Records and their metadata headers\<close>

text \<open>
  \<open>matter(fileContents)\<close> returns the keys the header of the file holds, and
  \<open>data as BlogFrontmatter\<close> (and its two siblings) is an assertion the compiler erases:
  nothing checks the keys at run time. So every field of a header is optional in the
  model, \<open>None\<close> standing for a key the file does not have.
\<close>

record 'fm contentRecord =
  slug :: string
  frontmatter :: 'fm
  content :: string

record BlogFrontmatter =
  b_title :: "string option"
  b_description :: "string option"
  b_date :: "string option"
  b_author :: "string option"
  b_category :: "string option"
  b_tags :: "string list option"
  b_coverImage :: "string option"
  b_readingTime :: "string option"
  b_published :: "bool option"

datatype ventureStatus = Building | Live | Concept

record VentureFrontmatter =
  v_title :: "string option"
  v_description :: "string option"
  v_icon :: "string option"
  v_status :: "ventureStatus option"
  v_github :: "string option"
  v_demo :: "string option"
  v_link :: "string option"
  v_technologies :: "string list option"
  v_featured :: "bool option"
  v_order :: "int option"
  v_coverImage :: "string option"
  v_screenshots :: "string list option"
  v_metrics :: "(string \<times> string) list option"

record ExperienceFrontmatter =
  e_title :: "string option"
  e_company :: "string option"
  e_location :: "string option"
  e_startDate :: "string option"
  e_endDate :: "string option"
  e_current :: "bool option"
  e_description :: "string option"
  e_achievements :: "string list option"
  e_technologies :: "string list option"
  e_order :: "int option"

type_synonym BlogPost = "BlogFrontmatter contentRecord"
type_synonym Venture = "VentureFrontmatter contentRecord"
type_synonym Experience = "ExperienceFrontmatter contentRecord"

text \<open>The header \<open>{}\<close>, which has no key, read at each of the three header types.\<close>

definition noBlogKeys :: BlogFrontmatter where
  "noBlogKeys =
     \<lparr>b_title = None, b_description = None, b_date = None, b_author = None,
      b_category = None, b_tags = None, b_coverImage = None, b_readingTime = None,
      b_published = None\<rparr>"

definition noVentureKeys :: VentureFrontmatter where
  "noVentureKeys =
     \<lparr>v_title = None, v_description = None, v_icon = None, v_status = None,
      v_github = None, v_demo = None, v_link = None, v_technologies = None,
      v_featured = None, v_order = None, v_coverImage = None, v_screenshots = None,
      v_metrics = None\<rparr>"

definition noExperienceKeys :: ExperienceFrontmatter where
  "noExperienceKeys =
     \<lparr>e_title = None, e_company = None, e_location = None, e_startDate = None,
      e_endDate = None, e_current = None, e_description = None, e_achievements = None,
      e_technologies = None, e_order = None\<rparr>"

subsection \<open>The parser and its cache\<close>

text \<open>
  \<open>matter\<close> is the \<open>gray-matter\<close> package, which is not code of this repository. Reading
  the header out of a text (splitting at the fences and parsing the lines between them) is
  a function of the text; the loaders take it as the parameter \<open>parse\<close>, which either
  throws or returns the header and the body. Around it the package keeps a cache, for as
  long as the process lives, and the loaders call it without options, so they use it:
  \<^item> the empty text is answered at once, with no key and an empty body;
  \<^item> a text that is in the cache is answered from the cache, without parsing;
  \<^item> any other text is put into the cache first, as a file object with no key and the
    whole text as its body, and parsed then. Parsing fills that very object in; when the
    parse throws, the object stays in the cache as it is.
  What the cache holds for a text is therefore fixed by the text (\<open>cachedFile\<close>), and the
  state of the cache is the set of the texts it holds.
\<close>

type_synonym 'fm parser = "string \<Rightarrow> error + ('fm \<times> string)"

type_synonym cache = "string set"

definition cachedFile :: "'fm parser \<Rightarrow> 'fm \<Rightarrow> string \<Rightarrow> 'fm \<times> string" where
  "cachedFile parse noKeys input =
     (case parse input of Inr file \<Rightarrow> file | Inl e \<Rightarrow> (noKeys, input))"

definition matter ::
  "'fm parser \<Rightarrow> 'fm \<Rightarrow> cache \<Rightarrow> string \<Rightarrow> cache \<times> (error + ('fm \<times> string))" where
  "matter parse noKeys cache input =
     (if input = [] then (cache, Inr (noKeys, []))
      else if input \<in> cache then (cache, Inr (cachedFile parse noKeys input))
      else (insert input cache, parse input))"

text \<open>
  The three per-file loaders have one body: read the file, parse it, and return \<open>null\<close>
  (here \<open>None\<close>) when either step throws. The cache the call leaves is returned with the
  record.
\<close>

definition loadBySlug ::
  "path \<Rightarrow> 'fm parser \<Rightarrow> 'fm \<Rightarrow> fs \<Rightarrow> cache \<Rightarrow> string \<Rightarrow> cache \<times> 'fm contentRecord option" where
  "loadBySlug dir parse noKeys fs cache slug' =
     (case readFileSync fs (mdxPath dir slug') of
        Inl e \<Rightarrow> (cache, None)
      | Inr fileContents \<Rightarrow>
          (case matter parse noKeys cache fileContents of
             (cache', Inl e) \<Rightarrow> (cache', None)
           | (cache', Inr (data, content')) \<Rightarrow>
               (cache', Some \<lparr>slug = slug', frontmatter = data, content = content'\<rparr>)))"

fun loadAll :: "(cache \<Rightarrow> string \<Rightarrow> cache \<times> 'a option) \<Rightarrow> cache \<Rightarrow> string list \<Rightarrow> cache \<times> 'a list" where
  \<comment> \<open>\<open>slugs.map((slug) => get(slug)).filter((x) => x !== null)\<close>: the calls are made in
      the order of the slugs, each in the cache the one before has left.\<close>
  "loadAll get cache [] = (cache, [])"
| "loadAll get cache (s # slugs) =
     (case get cache s of
        (cache1, r) \<Rightarrow>
          (case loadAll get cache1 slugs of
             (cache2, rs) \<Rightarrow> (cache2, (case r of None \<Rightarrow> rs | Some x \<Rightarrow> x # rs))))"

section \<open>Sorting\<close>

text \<open>
  A comparator returns a number, which may be \<open>NaN\<close>; \<open>Array.prototype.sort\<close> reads \<open>NaN\<close>
  as 0 (\<open>sortCompare\<close>).
\<close>

datatype number = Num int | NaN

fun numSub :: "number \<Rightarrow> number \<Rightarrow> number" where
  "numSub (Num a) (Num b) = Num (a - b)"
| "numSub _ _ = NaN"

definition sortCompare :: "('a \<Rightarrow> 'a \<Rightarrow> number) \<Rightarrow> 'a \<Rightarrow> 'a \<Rightarrow> int" where
  "sortCompare comparefn x y = (case comparefn x y of NaN \<Rightarrow> 0 | Num v \<Rightarrow> v)"

text \<open>
  The language calls a comparator consistent on a set of values when it never returns
  \<open>NaN\<close> there and its three outcomes (below 0, 0, above 0) behave as an ordering of
  classes of equal values.
\<close>

definition consistentOn :: "('a \<Rightarrow> 'a \<Rightarrow> number) \<Rightarrow> 'a set \<Rightarrow> bool" where
  "consistentOn comparefn S =
     (\<forall>a \<in> S. \<forall>b \<in> S. \<forall>c \<in> S.
        comparefn a b \<noteq> NaN \<and>
        sortCompare comparefn a a = 0 \<and>
        (sortCompare comparefn a b = 0 \<longrightarrow> sortCompare comparefn b a = 0) \<and>
        (sortCompare comparefn a b = 0 \<and> sortCompare comparefn b c = 0 \<longrightarrow>
           sortCompare comparefn a c = 0) \<and>
        (sortCompare comparefn a b < 0 \<and> sortCompare comparefn b c < 0 \<longrightarrow>
           sortCompare comparefn a c < 0) \<and>
        (sortCompare comparefn a b > 0 \<and> sortCompare comparefn b c > 0 \<longrightarrow>
           sortCompare comparefn a c > 0))"

text \<open>
  The stable sort: each element is put before the first later element it does not exceed.
\<close>

fun insertBy :: "('a \<Rightarrow> 'a \<Rightarrow> int) \<Rightarrow> 'a \<Rightarrow> 'a list \<Rightarrow> 'a list" where
  "insertBy cmp x [] = [x]"
| "insertBy cmp x (y # ys) = (if cmp x y \<le> 0 then x # y # ys else y # insertBy cmp x ys)"

definition stableSort :: "('a \<Rightarrow> 'a \<Rightarrow> number) \<Rightarrow> 'a list \<Rightarrow> 'a list" where
  "stableSort comparefn xs = foldr (insertBy (sortCompare comparefn)) xs []"

text \<open>
  What the language promises of \<open>Array.prototype.sort\<close>, whatever the engine: the result
  has the elements of the array, and where the comparator is consistent on them it is the
  stable sort. For any other comparator the order is left to the engine. The loaders take
  the sort of the engine as the parameter \<open>arraySort\<close>.
\<close>

definition conformingSort :: "(('a \<Rightarrow> 'a \<Rightarrow> number) \<Rightarrow> 'a list \<Rightarrow> 'a list) \<Rightarrow> bool" where
  "conformingSort arraySort =
     (\<forall>comparefn xs.
        mset (arraySort comparefn xs) = mset xs \<and>
        (consistentOn comparefn (set xs) \<longrightarrow> arraySort comparefn xs = stableSort comparefn xs))"

subsection \<open>The sort of the V8 engine on a short array\<close>

text \<open>
  Node's engine sorts with TimSort. On an array of fewer than 64 elements that is: find
  the run the array starts with (ascending, or strictly descending and then reversed),
  and insert each element after the run into the sorted front by binary search. Longer
  arrays are cut into several runs that are merged; that part is not modelled, and
  \<open>v8SortShort\<close> is used on short arrays only.
\<close>

fun runTail :: "('a \<Rightarrow> 'a \<Rightarrow> int) \<Rightarrow> bool \<Rightarrow> 'a \<Rightarrow> 'a list \<Rightarrow> nat" where
  \<comment> \<open>How many more elements continue the run that ends in \<open>previous\<close>.\<close>
  "runTail cmp isDescending previous [] = 0"
| "runTail cmp isDescending previous (current # rest) =
     (let order = cmp current previous in
      if isDescending then (if order \<ge> 0 then 0 else Suc (runTail cmp isDescending current rest))
      else (if order < 0 then 0 else Suc (runTail cmp isDescending current rest)))"

function binarySearch :: "('a \<Rightarrow> 'a \<Rightarrow> int) \<Rightarrow> 'a \<Rightarrow> 'a list \<Rightarrow> nat \<Rightarrow> nat \<Rightarrow> nat" where
  "binarySearch cmp pivot front left right =
     (if left < right then
        (let mid = left + (right - left) div 2 in
         if cmp pivot (front ! mid) < 0 then binarySearch cmp pivot front left mid
         else binarySearch cmp pivot front (mid + 1) right)
      else left)"
  by pat_completeness auto
termination
  by (relation "measure (\<lambda>(cmp, pivot, front, left, right). right - left)") auto

declare binarySearch.simps [simp del]

fun binaryInsertionSort :: "('a \<Rightarrow> 'a \<Rightarrow> int) \<Rightarrow> 'a list \<Rightarrow> 'a list \<Rightarrow> 'a list" where
  "binaryInsertionSort cmp front [] = front"
| "binaryInsertionSort cmp front (pivot # rest) =
     (let left = binarySearch cmp pivot front 0 (length front)
      in binaryInsertionSort cmp (take left front @ pivot # drop left front) rest)"

definition v8SortShort :: "('a \<Rightarrow> 'a \<Rightarrow> number) \<Rightarrow> 'a list \<Rightarrow> 'a list" where
  "v8SortShort comparefn xs =
     (case xs of
        x0 # x1 # rest \<Rightarrow>
          (let cmp = sortCompare comparefn;
               isDescending = (cmp x1 x0 < 0);
               runLength = 2 + runTail cmp isDescending x1 rest;
               run = (if isDescending then rev (take runLength xs) else take runLength xs)
           in binaryInsertionSort cmp run (drop runLength xs))
      | _ \<Rightarrow> xs)"

section \<open>The loaders\<close>

text \<open>
  What a loader can change is the file system and the cache of the parser. Each loader
  is a function of that state and returns the state it leaves together with its result,
  an error standing for an exception that escapes.
\<close>

record world =
  fileSystem :: fs
  matterCache :: cache

definition venturesDirectory :: path where
  "venturesDirectory = [''content'', ''ventures'']"

definition POSTS_PATH :: path where
  "POSTS_PATH = [''content'', ''blog'']"

definition experiencesDirectory :: path where
  "experiencesDirectory = [''content'', ''experiences'']"

subsection \<open>Ventures\<close>

definition getAllVentureSlugs :: "fs \<Rightarrow> fs \<times> (error + string list)" where
  "getAllVentureSlugs fs =
     (if \<not> existsSync fs venturesDirectory then (fs, Inr [])
      else (case readdirSync fs venturesDirectory of
              Inl e \<Rightarrow> (fs, Inl e)
            | Inr fileNames \<Rightarrow> (fs, Inr (slugsOf fileNames))))"

definition getVentureBySlug ::
  "VentureFrontmatter parser \<Rightarrow> fs \<Rightarrow> cache \<Rightarrow> string \<Rightarrow> cache \<times> Venture option" where
  "getVentureBySlug parse fs cache slug' =
     loadBySlug venturesDirectory parse noVentureKeys fs cache slug'"

definition ventureOrder :: "Venture \<Rightarrow> int" where
  \<comment> \<open>\<open>a.frontmatter.order ?? 999\<close>\<close>
  "ventureOrder a = (case v_order (frontmatter a) of None \<Rightarrow> 999 | Some n \<Rightarrow> n)"

definition ventureCompare :: "Venture \<Rightarrow> Venture \<Rightarrow> number" where
  "ventureCompare a b =
     (let orderA = ventureOrder a; orderB = ventureOrder b in Num (orderA - orderB))"

definition getAllVentures ::
  "((Venture \<Rightarrow> Venture \<Rightarrow> number) \<Rightarrow> Venture list \<Rightarrow> Venture list) \<Rightarrow>
   VentureFrontmatter parser \<Rightarrow> world \<Rightarrow> world \<times> (error + Venture list)" where
  "getAllVentures arraySort parse w =
     (case getAllVentureSlugs (fileSystem w) of
        (fs', Inl e) \<Rightarrow> (w\<lparr>fileSystem := fs'\<rparr>, Inl e)
      | (fs', Inr slugs) \<Rightarrow>
          (case loadAll (getVentureBySlug parse fs') (matterCache w) slugs of
             (cache', ventures) \<Rightarrow>
               (\<lparr>fileSystem = fs', matterCache = cache'\<rparr>,
                Inr (arraySort ventureCompare ventures))))"

subsection \<open>Blog posts\<close>

definition getAllPostSlugs :: "fs \<Rightarrow> fs \<times> (error + string list)" where
  "getAllPostSlugs fs =
     (if \<not> existsSync fs POSTS_PATH then
        (case mkdirSync POSTS_PATH fs of
           (fs', Inl e) \<Rightarrow> (fs', Inl e)
         | (fs', Inr _) \<Rightarrow> (fs', Inr []))
      else (case readdirSync fs POSTS_PATH of
              Inl e \<Rightarrow> (fs, Inl e)
            | Inr files \<Rightarrow> (fs, Inr (slugsOf files))))"

definition getPostBySlug ::
  "BlogFrontmatter parser \<Rightarrow> fs \<Rightarrow> cache \<Rightarrow> string \<Rightarrow> cache \<times> BlogPost option" where
  "getPostBySlug parse fs cache slug' = loadBySlug POSTS_PATH parse noBlogKeys fs cache slug'"

text \<open>
  \<open>new Date(d).getTime()\<close> is the library's date parser, taken as the parameter
  \<open>parseDate\<close>; it yields \<open>NaN\<close> for a text that is no date, and a header without the key
  \<open>date\<close> gives \<open>new Date(undefined)\<close>, whose time is \<open>NaN\<close> too.
\<close>

definition postTime :: "(string \<Rightarrow> number) \<Rightarrow> BlogPost \<Rightarrow> number" where
  "postTime parseDate a = (case b_date (frontmatter a) of None \<Rightarrow> NaN | Some d \<Rightarrow> parseDate d)"

definition postCompare :: "(string \<Rightarrow> number) \<Rightarrow> BlogPost \<Rightarrow> BlogPost \<Rightarrow> number" where
  "postCompare parseDate a b = numSub (postTime parseDate b) (postTime parseDate a)"

definition getAllPosts ::
  "((BlogPost \<Rightarrow> BlogPost \<Rightarrow> number) \<Rightarrow> BlogPost list \<Rightarrow> BlogPost list) \<Rightarrow>
   BlogFrontmatter parser \<Rightarrow> (string \<Rightarrow> number) \<Rightarrow> bool \<Rightarrow> world \<Rightarrow>
   world \<times> (error + BlogPost list)" where
  \<comment> \<open>The default of \<open>includeUnpublished\<close> is \<open>False\<close>.\<close>
  "getAllPosts arraySort parse parseDate includeUnpublished w =
     (case getAllPostSlugs (fileSystem w) of
        (fs', Inl e) \<Rightarrow> (w\<lparr>fileSystem := fs'\<rparr>, Inl e)
      | (fs', Inr slugs) \<Rightarrow>
          (case loadAll (getPostBySlug parse fs') (matterCache w) slugs of
             (cache', posts) \<Rightarrow>
               (\<lparr>fileSystem = fs', matterCache = cache'\<rparr>,
                Inr (arraySort (postCompare parseDate)
                  (filter (\<lambda>post. includeUnpublished \<or> b_published (frontmatter post) \<noteq> Some False)
                     posts)))))"

subsection \<open>Experiences\<close>

definition getAllExperienceSlugs :: "fs \<Rightarrow> fs \<times> (error + string list)" where
  "getAllExperienceSlugs fs =
     (if \<not> existsSync fs experiencesDirectory then (fs, Inr [])
      else (case readdirSync fs experiencesDirectory of
              Inl e \<Rightarrow> (fs, Inl e)
            | Inr fileNames \<Rightarrow> (fs, Inr (slugsOf fileNames))))"

definition getExperienceBySlug ::
  "ExperienceFrontmatter parser \<Rightarrow> fs \<Rightarrow> cache \<Rightarrow> string \<Rightarrow> cache \<times> Experience option" where
  "getExperienceBySlug parse fs cache slug' =
     loadBySlug experiencesDirectory parse noExperienceKeys fs cache slug'"

definition isCurrent :: "Experience \<Rightarrow> bool" where
  \<comment> \<open>\<open>a.frontmatter.current\<close> read as a condition: an absent key is not true.\<close>
  "isCurrent a = (e_current (frontmatter a) = Some True)"

definition experienceCompare :: "Experience \<Rightarrow> Experience \<Rightarrow> number" where
  "experienceCompare a b =
     (case (e_order (frontmatter a), e_order (frontmatter b)) of
        (Some orderA, Some orderB) \<Rightarrow> Num (orderA - orderB)
      | _ \<Rightarrow>
          if isCurrent a \<and> \<not> isCurrent b then Num (- 1)
          else if \<not> isCurrent a \<and> isCurrent b then Num 1
          else Num 0)"

definition getAllExperiences ::
  "((Experience \<Rightarrow> Experience \<Rightarrow> number) \<Rightarrow> Experience list \<Rightarrow> Experience list) \<Rightarrow>
   ExperienceFrontmatter parser \<Rightarrow> world \<Rightarrow> world \<times> (error + Experience list)" where
  "getAllExperiences arraySort parse w =
     (case getAllExperienceSlugs (fileSystem w) of
        (fs', Inl e) \<Rightarrow> (w\<lparr>fileSystem := fs'\<rparr>, Inl e)
      | (fs', Inr slugs) \<Rightarrow>
          (case loadAll (getExperienceBySlug parse fs') (matterCache w) slugs of
             (cache', experiences) \<Rightarrow>
               (\<lparr>fileSystem = fs', matterCache = cache'\<rparr>,
                Inr (arraySort experienceCompare experiences))))"

subsection \<open>The required keys of a header\<close>


definition ventureComplete :: "VentureFrontmatter \<Rightarrow> bool" where
  "ventureComplete h =
     (v_title h \<noteq> None \<and> v_description h \<noteq> None \<and> v_icon h \<noteq> None \<and>
      v_status h \<noteq> None \<and> v_technologies h \<noteq> None)"

definition experienceComplete :: "ExperienceFrontmatter \<Rightarrow> bool" where
  "experienceComplete h =
     (e_title h \<noteq> None \<and> e_company h \<noteq> None \<and> e_startDate h \<noteq> None \<and>
      e_endDate h \<noteq> None \<and> e_current h \<noteq> None \<and> e_description h \<noteq> None \<and>
      e_achievements h \<noteq> None \<and> e_technologies h \<noteq> None)"

section \<open>Auxiliary notions and example states\<close>

text \<open>
  What \<open>replaceNonAlnumRuns\<close> leaves before the first word and after the last one: a dash
  where the text starts (ends) with a character outside \<open>[a-z0-9]\<close>.
\<close>

definition dashBefore :: "string \<Rightarrow> string" where
  "dashBefore s = (if s \<noteq> [] \<and> \<not> isLowerAlnum (hd s) then ''-'' else [])"

definition dashAfter :: "string \<Rightarrow> string" where
  "dashAfter s = (if alnumWords s \<noteq> [] \<and> \<not> isLowerAlnum (last s) then ''-'' else [])"



text \<open>The text of a file with a fenced header.\<close>

definition mdxText :: "string list \<Rightarrow> string \<Rightarrow> string" where
  \<comment> \<open>The header lines between two \<open>---\<close> fences, each line ended by a line feed, then the body.\<close>
  "mdxText headerLines body =
     concat (map (\<lambda>l. l @ [CHR 0x0A]) (''---'' # headerLines @ [''---''])) @ body"


text \<open>
  Parsers for the example directories below. They know the few texts the directories
  hold; a header with an unclosed bracket does not parse, and a text without a fence is
  all body.
\<close>

definition examplePostParse :: "BlogFrontmatter parser" where
  "examplePostParse fileContents =
     (if fileContents = mdxText [''title: Hello'', ''date: 2024-01-01''] ''Hi'' then
        Inr (noBlogKeys\<lparr>b_title := Some ''Hello'', b_date := Some ''2024-01-01''\<rparr>, ''Hi'')
      else if fileContents = mdxText [''published: false'', ''date: 2024-02-01''] ''Draft'' then
        Inr (noBlogKeys\<lparr>b_date := Some ''2024-02-01'', b_published := Some False\<rparr>, ''Draft'')
      else if fileContents = mdxText [''title: Later'', ''date: 2024-03-01''] ''Yo'' then
        Inr (noBlogKeys\<lparr>b_title := Some ''Later'', b_date := Some ''2024-03-01''\<rparr>, ''Yo'')
      else if fileContents = mdxText [''title: [unclosed''] '''' then Inl ParseError
      else Inr (noBlogKeys, fileContents))"

definition exampleParseDate :: "string \<Rightarrow> number" where
  \<comment> \<open>The time stamps, in milliseconds, of the three dates of the example; no other text
      is asked for.\<close>
  "exampleParseDate d =
     (if d = ''2024-01-01'' then Num 1704067200000
      else if d = ''2024-02-01'' then Num 1706745600000
      else if d = ''2024-03-01'' then Num 1709251200000
      else NaN)"

definition examplePostsFs :: fs where
  "examplePostsFs =
     [[] \<mapsto> Dir [''content''],
      [''content''] \<mapsto> Dir [''blog''],
      [''content'', ''blog''] \<mapsto>
        Dir [''a.mdx'', ''b.mdx'', ''notes.txt'', ''c.mdx'', ''d.mdx'', ''e.mdx''],
      [''content'', ''blog'', ''a.mdx''] \<mapsto>
        File (mdxText [''title: Hello'', ''date: 2024-01-01''] ''Hi''),
      [''content'', ''blog'', ''b.mdx''] \<mapsto>
        File (mdxText [''published: false'', ''date: 2024-02-01''] ''Draft''),
      [''content'', ''blog'', ''notes.txt''] \<mapsto> File ''remember'',
      [''content'', ''blog'', ''c.mdx''] \<mapsto> File (mdxText [''title: [unclosed''] ''''),
      [''content'', ''blog'', ''d.mdx''] \<mapsto> Dir [],
      [''content'', ''blog'', ''e.mdx''] \<mapsto>
        File (mdxText [''title: Later'', ''date: 2024-03-01''] ''Yo'')]"

definition exampleVentureParse :: "VentureFrontmatter parser" where
  "exampleVentureParse fileContents =
     (if fileContents = mdxText [''order: 1''] '''' then Inr (noVentureKeys\<lparr>v_order := Some 1\<rparr>, '''')
      else if fileContents = mdxText [''order: 2''] '''' then Inr (noVentureKeys\<lparr>v_order := Some 2\<rparr>, '''')
      else if fileContents = mdxText [''order: 3''] '''' then Inr (noVentureKeys\<lparr>v_order := Some 3\<rparr>, '''')
      else if fileContents = mdxText [''order: 1000''] '''' then
        Inr (noVentureKeys\<lparr>v_order := Some 1000\<rparr>, '''')
      else Inr (noVentureKeys, fileContents))"

definition exampleVenturesFs :: fs where
  "exampleVenturesFs =
     [[] \<mapsto> Dir [''content''],
      [''content''] \<mapsto> Dir [''ventures''],
      [''content'', ''ventures''] \<mapsto> Dir [''n.mdx'', ''x.mdx'', ''y.mdx'', ''z.mdx''],
      [''content'', ''ventures'', ''n.mdx''] \<mapsto> File ''No header here'',
      [''content'', ''ventures'', ''x.mdx''] \<mapsto> File (mdxText [''order: 3''] ''''),
      [''content'', ''ventures'', ''y.mdx''] \<mapsto> File (mdxText [''order: 1''] ''''),
      [''content'', ''ventures'', ''z.mdx''] \<mapsto> File (mdxText [''order: 2''] '''')]"

definition lateOrderFs :: fs where
  "lateOrderFs =
     [[] \<mapsto> Dir [''content''],
      [''content''] \<mapsto> Dir [''ventures''],
      [''content'', ''ventures''] \<mapsto> Dir [''a.mdx'', ''b.mdx''],
      [''content'', ''ventures'', ''a.mdx''] \<mapsto> File (mdxText [''order: 1000''] ''''),
      [''content'', ''ventures'', ''b.mdx''] \<mapsto> File ''No header here'']"

text \<open>
  A working directory with nothing in it, one where \<open>content\<close> is a file, a blog
  directory whose one post has no header, and one whose one post has a header that does
  not parse.
\<close>

definition bareFs :: fs where
  "bareFs = [[] \<mapsto> Dir []]"

definition contentIsFileFs :: fs where
  "contentIsFileFs = [[] \<mapsto> Dir [''content''], [''content''] \<mapsto> File ''not a directory'']"


definition malformedPostFs :: fs where
  "malformedPostFs =
     [[] \<mapsto> Dir [''content''],
      [''content''] \<mapsto> Dir [''blog''],
      [''content'', ''blog''] \<mapsto> Dir [''c.mdx''],
      [''content'', ''blog'', ''c.mdx''] \<mapsto> File (mdxText [''title: [unclosed''] '''')]"

definition freshWorld :: "fs \<Rightarrow> world" where
  \<comment> \<open>A process that has parsed nothing yet.\<close>
  "freshWorld fs = \<lparr>fileSystem = fs, matterCache = {}\<rparr>"

text \<open>Experience records and directories.\<close>

definition exampleExperienceParse :: "ExperienceFrontmatter parser" where
  "exampleExperienceParse fileContents =
     (if fileContents = mdxText [''current: true'', ''order: 2''] '''' then
        Inr (noExperienceKeys\<lparr>e_current := Some True, e_order := Some 2\<rparr>, '''')
      else if fileContents = mdxText [''current: false'', ''order: 1''] '''' then
        Inr (noExperienceKeys\<lparr>e_current := Some False, e_order := Some 1\<rparr>, '''')
      else if fileContents = mdxText [''current: true''] '''' then
        Inr (noExperienceKeys\<lparr>e_current := Some True\<rparr>, '''')
      else if fileContents = mdxText [''current: false''] '''' then
        Inr (noExperienceKeys\<lparr>e_current := Some False\<rparr>, '''')
      else Inr (noExperienceKeys, fileContents))"











section \<open>Reading time: the empty body\<close>

lemma splitSpaces_Nil: "splitSpaces [] = [[]]"
  by (simp add: splitSpaces.simps)

lemma splitSpaces_space:
  "isSpace c \<Longrightarrow> splitSpaces (c # cs) = [] # splitSpaces (dropWhile isSpace cs)"
  by (subst splitSpaces.simps) simp

lemma splitSpaces_letter:
  assumes c: "\<not> isSpace c"
  shows "splitSpaces (c # cs) = (c # hd (splitSpaces cs)) # tl (splitSpaces cs)"
proof (cases "dropWhile (\<lambda>c. \<not> isSpace c) cs")
  case Nil
  have "splitSpaces (c # cs) = [c # cs]"
    by (subst splitSpaces.simps) (simp add: Nil c)
  moreover have "splitSpaces cs = [cs]"
    by (subst splitSpaces.simps) (simp add: Nil)
  ultimately show ?thesis by simp
next
  case (Cons d rest)
  have "splitSpaces (c # cs) =
          (c # takeWhile (\<lambda>c. \<not> isSpace c) cs) # splitSpaces (dropWhile isSpace rest)"
    by (subst splitSpaces.simps) (simp add: Cons c)
  moreover have "splitSpaces cs =
          takeWhile (\<lambda>c. \<not> isSpace c) cs # splitSpaces (dropWhile isSpace rest)"
    by (subst splitSpaces.simps) (simp add: Cons)
  ultimately show ?thesis by simp
qed

lemma splitSpaces_not_Nil: "splitSpaces s \<noteq> []"
  by (subst splitSpaces.simps) (simp split: list.splits)

lemma hd_splitSpaces_empty: "hd (splitSpaces s) = [] \<longleftrightarrow> s = [] \<or> isSpace (hd s)"
proof (cases s)
  case Nil
  then show ?thesis by (simp add: splitSpaces_Nil)
next
  case (Cons c cs)
  show ?thesis
  proof (cases "isSpace c")
    case True
    then show ?thesis using Cons by (simp add: splitSpaces_space)
  next
    case False
    then show ?thesis using Cons by (simp add: splitSpaces_letter)
  qed
qed

lemma last_dropWhile: "dropWhile P xs \<noteq> [] \<Longrightarrow> last (dropWhile P xs) = last xs"
  by (induction xs) (auto split: if_splits)

text \<open>
  The number the code divides by 200 is the number of pieces of the split, not the number
  of words: it counts one more for a text that is empty or starts with white space, and
  one more for a text that ends with white space.
\<close>

lemma splitSpaces_length:
  "length (splitSpaces s) =
     length (wordsOf s) + (if s = [] \<or> isSpace (hd s) then 1 else 0)
       + (if s \<noteq> [] \<and> isSpace (last s) then 1 else 0)"
proof (induction s rule: length_induct)
  case (1 s)
  show ?case
  proof (cases s)
    case Nil
    then show ?thesis by (simp add: splitSpaces_Nil wordsOf_def)
  next
    case (Cons c cs)
    show ?thesis
    proof (cases "isSpace c")
      case False
      obtain h t where ht: "splitSpaces cs = h # t"
        using splitSpaces_not_Nil [of cs] by (cases "splitSpaces cs") auto
      have IH: "length (splitSpaces cs) =
         length (wordsOf cs) + (if cs = [] \<or> isSpace (hd cs) then 1 else 0)
           + (if cs \<noteq> [] \<and> isSpace (last cs) then 1 else 0)"
        using 1 Cons by simp
      have h: "h = [] \<longleftrightarrow> cs = [] \<or> isSpace (hd cs)"
        using hd_splitSpaces_empty [of cs] ht by simp
      show ?thesis
        using False Cons ht IH h by (auto simp: splitSpaces_letter wordsOf_def)
    next
      case True
      let ?r = "dropWhile isSpace cs"
      have IH: "length (splitSpaces ?r) =
         length (wordsOf ?r) + (if ?r = [] \<or> isSpace (hd ?r) then 1 else 0)
           + (if ?r \<noteq> [] \<and> isSpace (last ?r) then 1 else 0)"
        using 1 Cons length_dropWhile_le [of isSpace cs] by (simp add: less_Suc_eq_le)
      have w: "wordsOf s = wordsOf ?r"
        using True Cons by (simp add: splitSpaces_space wordsOf_def)
      have l: "length (splitSpaces s) = Suc (length (splitSpaces ?r))"
        using True Cons by (simp add: splitSpaces_space)
      show ?thesis
      proof (cases "?r = []")
        case e: True
        then have "\<forall>x \<in> set cs. isSpace x" by (simp add: dropWhile_eq_Nil_conv)
        then have "isSpace (last (c # cs))" using True by (cases "cs = []") auto
        then show ?thesis using IH w l e True Cons by simp
      next
        case ne: False
        then have "\<not> isSpace (hd ?r)" using hd_dropWhile [of isSpace cs] by simp
        moreover have "last ?r = last (c # cs)"
          using ne last_dropWhile [of isSpace cs] by auto
        ultimately show ?thesis using IH w l ne True Cons by simp
      qed
    qed
  qed
qed

lemma splitSpaces_single_spaced:
  "splitSpaces (concat (replicate n ''w '') @ ''w'') = replicate (Suc n) ''w''"
proof (induction n)
  case 0
  show ?case by (simp add: splitSpaces_letter splitSpaces_Nil isSpace_def code_def)
next
  case (Suc n)
  have d: "dropWhile isSpace (concat (replicate n ''w '') @ ''w'') =
             concat (replicate n ''w '') @ ''w''"
    by (cases n) (simp_all add: isSpace_def code_def)
  have w: "\<not> isSpace CHR ''w''" and s: "isSpace CHR '' ''"
    by (simp_all add: isSpace_def code_def)
  show ?case using Suc d by (simp add: splitSpaces_letter splitSpaces_space w s)
qed

text \<open>A body of 450 words, one space between two words, reads in 3 minutes.\<close>

lemma calculateReadingTime_450_words:
  "calculateReadingTime (concat (replicate 449 ''w '') @ ''w'') = ''3 min read''"
proof -
  have "ceilDiv 450 200 = 3" by (simp add: ceilDiv_def)
  moreover have "numberToString 3 = ''3''" by code_simp
  ultimately show ?thesis by (simp add: calculateReadingTime_def splitSpaces_single_spaced)
qed

text \<open>
  Claim C3: for every body text \<open>calculateReadingTime\<close> returns \<open>N min read\<close> with \<open>N\<close> the
  ceiling of the word count divided by 200, and the empty body, of word count 0, reads in
  0 minutes. The code does not do this: the empty body has no word, the ceiling of 0 / 200
  is 0, and the code returns \<open>1 min read\<close>, because the split of the empty text is one
  empty piece.
\<close>

theorem calculateReadingTime_empty_body:
  "wordsOf '''' = [] \<and> ceilDiv (length (wordsOf '''')) 200 = 0 \<and>
   length (splitSpaces '''') = 1 \<and> calculateReadingTime '''' = ''1 min read''"
  by code_simp

section \<open>Heading anchors: the code against the specification's wording\<close>

lemma alnumWords_Nil: "alnumWords [] = []"
  by (simp add: alnumWords.simps)

lemma alnumWords_skip: "\<not> isLowerAlnum c \<Longrightarrow> alnumWords (c # cs) = alnumWords cs"
  by (subst alnumWords.simps, subst (2) alnumWords.simps) simp

lemma alnumWords_start:
  "isLowerAlnum c \<Longrightarrow>
     alnumWords (c # cs) = (c # takeWhile isLowerAlnum cs) # alnumWords (dropWhile isLowerAlnum cs)"
  by (subst alnumWords.simps) simp

lemma alnumWords_dropWhile: "alnumWords (dropWhile (\<lambda>c. \<not> isLowerAlnum c) s) = alnumWords s"
  by (induction s) (simp_all add: alnumWords_skip)

lemma alnumWords_empty_iff: "alnumWords s = [] \<longleftrightarrow> (\<forall>c \<in> set s. \<not> isLowerAlnum c)"
proof (induction s)
  case Nil
  show ?case by (simp add: alnumWords_Nil)
next
  case (Cons c cs)
  show ?case
  proof (cases "isLowerAlnum c")
    case True
    then show ?thesis by (auto simp: alnumWords_start)
  next
    case False
    then show ?thesis using Cons by (simp add: alnumWords_skip)
  qed
qed

lemma alnumWords_extend:
  "isLowerAlnum c \<Longrightarrow>
     alnumWords (c # cs) =
       (case cs of
          [] \<Rightarrow> [[c]]
        | d # ds \<Rightarrow>
            if isLowerAlnum d then (c # hd (alnumWords cs)) # tl (alnumWords cs)
            else [c] # alnumWords cs)"
  by (cases cs) (auto simp: alnumWords_start alnumWords_Nil alnumWords_skip)

lemma joinDash_Cons:
  "joinDash (w # ws) = w @ (if ws = [] then [] else CHR ''-'' # joinDash ws)"
  by (cases ws) simp_all

lemma replaceNonAlnumRuns_shape:
  "replaceNonAlnumRuns s = dashBefore s @ joinDash (alnumWords s) @ dashAfter s"
proof (induction s rule: replaceNonAlnumRuns.induct)
  case 1
  show ?case by (simp add: dashBefore_def dashAfter_def alnumWords_Nil)
next
  case (2 c cs)
  show ?case
  proof (cases "isLowerAlnum c")
    case True
    note IH = 2(1) [OF True]
    show ?thesis
    proof (cases cs)
      case Nil
      then show ?thesis
        using True by (simp add: dashBefore_def dashAfter_def alnumWords_start alnumWords_Nil)
    next
      case (Cons d ds)
      show ?thesis
      proof (cases "isLowerAlnum d")
        case d: True
        then have "alnumWords cs \<noteq> []" using Cons by (simp add: alnumWords_start)
        then obtain w ws where w: "alnumWords cs = w # ws"
          by (cases "alnumWords cs") auto
        have "alnumWords (c # cs) = (c # w) # ws"
          using True d Cons w by (simp add: alnumWords_extend)
        then show ?thesis
          using IH True d Cons w by (simp add: dashBefore_def dashAfter_def joinDash_Cons)
      next
        case d: False
        have W: "alnumWords (c # cs) = [c] # alnumWords cs"
          using True d Cons by (simp add: alnumWords_extend)
        show ?thesis
        proof (cases "alnumWords cs = []")
          case e: True
          then have "\<not> isLowerAlnum (last cs)"
            using Cons alnumWords_empty_iff [of cs] last_in_set [of cs] by auto
          then show ?thesis
            using IH True d Cons W e by (simp add: dashBefore_def dashAfter_def)
        next
          case e: False
          then show ?thesis
            using IH True d Cons W by (simp add: dashBefore_def dashAfter_def joinDash_Cons)
        qed
      qed
    qed
  next
    case False
    note IH = 2(2) [OF False]
    let ?r = "dropWhile (\<lambda>d. \<not> isLowerAlnum d) cs"
    have p: "dashBefore ?r = []"
      using hd_dropWhile [of "\<lambda>d. \<not> isLowerAlnum d" cs] by (auto simp: dashBefore_def)
    have W: "alnumWords (c # cs) = alnumWords ?r"
      using False by (simp add: alnumWords_skip alnumWords_dropWhile)
    have s: "dashAfter (c # cs) = dashAfter ?r"
    proof (cases "alnumWords ?r = []")
      case True
      then show ?thesis using W by (simp add: dashAfter_def)
    next
      case ne: False
      have r: "?r \<noteq> []"
      proof
        assume e: "?r = []"
        have "alnumWords ?r = []" unfolding e by (rule alnumWords_Nil)
        then show False using ne by simp
      qed
      then have "last ?r = last cs" by (rule last_dropWhile)
      moreover have "cs \<noteq> []" using r by auto
      ultimately show ?thesis using W by (simp add: dashAfter_def)
    qed
    show ?thesis using False IH p W s by (simp add: dashBefore_def)
  qed
qed

lemma alnumWords_words:
  "w \<in> set (alnumWords s) \<Longrightarrow> w \<noteq> [] \<and> (\<forall>c \<in> set w. isLowerAlnum c)"
proof (induction s arbitrary: w rule: alnumWords.induct)
  case (1 s)
  show ?case
  proof (cases "dropWhile (\<lambda>c. \<not> isLowerAlnum c) s")
    case Nil
    have "alnumWords s = []"
      by (subst alnumWords.simps) (simp add: Nil)
    then show ?thesis using 1(2) by simp
  next
    case (Cons c cs)
    have "alnumWords s = takeWhile isLowerAlnum (c # cs) # alnumWords (dropWhile isLowerAlnum cs)"
      by (subst alnumWords.simps) (simp add: Cons)
    moreover have "isLowerAlnum c"
      using hd_dropWhile [of "\<lambda>c. \<not> isLowerAlnum c" s] Cons by auto
    ultimately show ?thesis
      using 1(1) [OF Cons] 1(2) by (auto dest: set_takeWhileD)
  qed
qed

lemma dash_not_alnum: "\<not> isLowerAlnum CHR ''-''"
  by (simp add: isLowerAlnum_def code_def)

lemma joinDash_edges:
  "\<forall>w \<in> set ws. w \<noteq> [] \<and> (\<forall>c \<in> set w. isLowerAlnum c) \<Longrightarrow> ws \<noteq> [] \<Longrightarrow>
     joinDash ws \<noteq> [] \<and> isLowerAlnum (hd (joinDash ws)) \<and> isLowerAlnum (last (joinDash ws))"
proof (induction ws rule: joinDash.induct)
  case 1
  then show ?case by simp
next
  case (2 w)
  then show ?case by (cases w) auto
next
  case (3 w v ws)
  then show ?case by (cases w) auto
qed

lemma stripEdgeDashes_between:
  "x \<noteq> [] \<Longrightarrow> hd x \<noteq> CHR ''-'' \<Longrightarrow> last x \<noteq> CHR ''-'' \<Longrightarrow>
     p \<in> {[], ''-''} \<Longrightarrow> q \<in> {[], ''-''} \<Longrightarrow> stripEdgeDashes (p @ x @ q) = x"
  by (cases x) (auto simp: stripEdgeDashes_def Let_def butlast_append)

lemma stripEdgeDashes_replaceNonAlnumRuns:
  "stripEdgeDashes (replaceNonAlnumRuns s) = joinDash (alnumWords s)"
proof (cases "alnumWords s = []")
  case True
  then show ?thesis
    by (simp add: replaceNonAlnumRuns_shape dashBefore_def dashAfter_def stripEdgeDashes_def)
next
  case False
  have e: "joinDash (alnumWords s) \<noteq> [] \<and> isLowerAlnum (hd (joinDash (alnumWords s))) \<and>
           isLowerAlnum (last (joinDash (alnumWords s)))"
    using joinDash_edges [of "alnumWords s"] alnumWords_words False by blast
  then have "hd (joinDash (alnumWords s)) \<noteq> CHR ''-''"
    and "last (joinDash (alnumWords s)) \<noteq> CHR ''-''"
    using dash_not_alnum by auto
  then show ?thesis
    using e by (simp add: replaceNonAlnumRuns_shape stripEdgeDashes_between dashBefore_def dashAfter_def)
qed

text \<open>
  Claim C4: for every heading title, the anchor identifier \<open>extractTableOfContents\<close>
  derives is the title in lower case with every maximal run of characters outside
  \<open>[a-z0-9]\<close> collapsed to one dash and no dash at either end, that is, the alphanumeric
  words of the lower-cased title joined by single dashes; the title
  \<open>Getting Started: Part 1!\<close> gives \<open>getting-started-part-1\<close>.
\<close>

theorem headingId_spec:
  "headingId title = specHeadingId title \<and>
   headingId ''Getting Started: Part 1!'' = ''getting-started-part-1''"
proof
  show "headingId title = specHeadingId title"
    by (simp add: headingId_def specHeadingId_def stripEdgeDashes_replaceNonAlnumRuns)
  show "headingId ''Getting Started: Part 1!'' = ''getting-started-part-1''"
    by code_simp
qed

text \<open>The identifier is empty or has no dash at either end.\<close>

lemma headingId_edges:
  "headingId title = [] \<or>
   (hd (headingId title) \<noteq> CHR ''-'' \<and> last (headingId title) \<noteq> CHR ''-'')"
proof (cases "alnumWords (toLowerCase title) = []")
  case True
  then show ?thesis
    by (simp add: headingId_def stripEdgeDashes_replaceNonAlnumRuns)
next
  case False
  then show ?thesis
    using joinDash_edges [of "alnumWords (toLowerCase title)"] alnumWords_words dash_not_alnum
    by (auto simp: headingId_def stripEdgeDashes_replaceNonAlnumRuns)
qed

section \<open>The icon of a venture card\<close>

text \<open>The nine keys of the literal select their components.\<close>

lemma ventureCardIcon_recognized:
  "map (\<lambda>k. ventureCardIcon k)
     [''scale'', ''wallet'', ''church'', ''trending'', ''zap'', ''users'', ''leaf'', ''heart'', ''book'']
   = map Component [Scale, Wallet, Church, TrendingUp, Zap, Users, Leaf, Heart, BookOpen]"
  by code_simp

text \<open>A key that is neither one of the nine nor a member of \<open>Object.prototype\<close> falls back
  to \<open>Scale\<close>; the empty key is one of them.\<close>

lemma ventureCardIcon_fallback:
  "map_of iconMapOwn key = None \<Longrightarrow> key \<notin> set objectPrototypeKeys \<Longrightarrow>
     ventureCardIcon key = Component Scale"
  by (simp add: ventureCardIcon_def iconMapGet_def)

lemma ventureCardIcon_empty_key: "ventureCardIcon '''' = Component Scale"
  by code_simp

text \<open>
  Claim C10: the icon lookup of \<open>VentureCard\<close> is total: each of the nine recognized keys
  selects its component, and every unrecognized or empty icon string selects \<open>Scale\<close>.
  The code does not do this for the keys the object literal inherits: the icon string
  \<open>constructor\<close> is none of the nine keys, the property read finds
  \<open>Object.prototype.constructor\<close>, which is truthy, so the fallback is not taken and the
  value selected is neither \<open>Scale\<close> nor any icon component.
\<close>

theorem ventureCardIcon_inherited_key:
  "map_of iconMapOwn ''constructor'' = None \<and>
   ventureCardIcon ''constructor'' = Inherited ''constructor'' \<and>
   ventureCardIcon ''constructor'' \<noteq> Component Scale"
  by code_simp


section \<open>Sorting\<close>

lemma mset_insertBy: "mset (insertBy cmp x ys) = add_mset x (mset ys)"
  by (induction ys) auto

lemma mset_stableSort: "mset (stableSort comparefn xs) = mset xs"
  unfolding stableSort_def by (induction xs) (simp_all add: mset_insertBy)

lemma set_stableSort: "set (stableSort comparefn xs) = set xs"
  using mset_stableSort [of comparefn xs] by (rule mset_eq_setD)

text \<open>The stable sort is a sort the language allows; so is any sort that agrees with it.\<close>

lemma conformingSort_stableSort: "conformingSort stableSort"
  by (simp add: conformingSort_def mset_stableSort)

lemma conformingSort_mset: "conformingSort arraySort \<Longrightarrow> mset (arraySort comparefn xs) = mset xs"
  by (simp add: conformingSort_def)

lemma conformingSort_set: "conformingSort arraySort \<Longrightarrow> set (arraySort comparefn xs) = set xs"
  using conformingSort_mset [of arraySort comparefn xs] by (auto dest: mset_eq_setD)

lemma conformingSort_consistent:
  "conformingSort arraySort \<Longrightarrow> consistentOn comparefn (set xs) \<Longrightarrow>
     arraySort comparefn xs = stableSort comparefn xs"
  by (simp add: conformingSort_def)

text \<open>
  Where the comparator compares a key, the stable sort is the stable sort by that key.
\<close>

lemma insertBy_key:
  "\<forall>y \<in> set ys. (cmp x y \<le> 0) = (k x \<le> k y) \<Longrightarrow> insertBy cmp x ys = insort_key k x ys"
  by (induction ys) simp_all

lemma stableSort_key:
  assumes "\<forall>x \<in> set xs. \<forall>y \<in> set xs. (sortCompare comparefn x y \<le> 0) = (k x \<le> k y)"
  shows "stableSort comparefn xs = sort_key k xs"
  using assms
proof (induction xs)
  case Nil
  show ?case by (simp add: stableSort_def)
next
  case (Cons x xs)
  have IH: "stableSort comparefn xs = sort_key k xs"
    using Cons by simp
  have "\<forall>y \<in> set (sort_key k xs). (sortCompare comparefn x y \<le> 0) = (k x \<le> k y)"
    using Cons(2) by simp
  then have "insertBy (sortCompare comparefn) x (sort_key k xs) = insort_key k x (sort_key k xs)"
    by (rule insertBy_key)
  then show ?case
    using IH by (simp add: stableSort_def sort_key_def)
qed

lemma consistentOn_key:
  assumes "\<forall>x \<in> S. \<forall>y \<in> S. comparefn x y = Num (k x - k y)"
  shows "consistentOn comparefn S"
  using assms unfolding consistentOn_def sortCompare_def by auto

text \<open>The comparator of the ventures compares the key \<open>order ?? 999\<close>.\<close>

lemma consistentOn_ventureCompare: "consistentOn ventureCompare S"
  by (rule consistentOn_key [where k = ventureOrder]) (simp add: ventureCompare_def)

lemma stableSort_ventureCompare: "stableSort ventureCompare xs = sort_key ventureOrder xs"
  by (rule stableSort_key) (simp add: sortCompare_def ventureCompare_def)

lemma arraySort_ventureCompare:
  "conformingSort arraySort \<Longrightarrow> arraySort ventureCompare xs = sort_key ventureOrder xs"
  using conformingSort_consistent [of arraySort ventureCompare xs]
  by (simp add: consistentOn_ventureCompare stableSort_ventureCompare)













section \<open>Loading the records of a directory\<close>


lemma loadBySlug_empty:
  "readFileSync fs (mdxPath dir s) = Inr [] \<Longrightarrow>
     loadBySlug dir parse noKeys fs cache s =
       (cache, Some \<lparr>slug = s, frontmatter = noKeys, content = []\<rparr>)"
  by (simp add: loadBySlug_def matter_def)





lemma cachedFile_failed: "parse t = Inl e \<Longrightarrow> cachedFile parse noKeys t = (noKeys, t)"
  by (simp add: cachedFile_def)


lemma loadBySlug_cache:
  "fst (loadBySlug dir parse noKeys fs cache s) =
     (case readFileSync fs (mdxPath dir s) of
        Inl e \<Rightarrow> cache
      | Inr t \<Rightarrow> if t = [] then cache else insert t cache)"
  by (auto simp: loadBySlug_def matter_def split: sum.splits prod.splits)

lemma loadAll_Cons:
  "loadAll get cache (s # slugs) =
     (fst (loadAll get (fst (get cache s)) slugs),
      (case snd (get cache s) of None \<Rightarrow> [] | Some x \<Rightarrow> [x]) @
        snd (loadAll get (fst (get cache s)) slugs))"
  by (simp split: prod.splits option.splits)




lemma loadAll_complete_empty:
  assumes "s \<in> set slugs"
    and "readFileSync fs (mdxPath dir s) = Inr []"
  shows "\<lparr>slug = s, frontmatter = noKeys, content = []\<rparr>
           \<in> set (snd (loadAll (loadBySlug dir parse noKeys fs) cache slugs))"
  using assms(1)
proof (induction slugs arbitrary: cache)
  case Nil
  then show ?case by simp
next
  case (Cons s' slugs)
  let ?g = "loadBySlug dir parse noKeys fs"
  show ?case
  proof (cases "s' = s")
    case True
    then show ?thesis unfolding loadAll_Cons using assms(2) by (simp add: loadBySlug_empty)
  next
    case False
    then have "s \<in> set slugs" using Cons(2) by simp
    from Cons(1) [OF this, of "fst (?g cache s')"] show ?thesis
      unfolding loadAll_Cons by simp
  qed
qed


text \<open>The cache after a load holds the texts that were read, and nothing is taken out.\<close>

lemma loadAll_cache:
  "fst (loadAll (loadBySlug dir parse noKeys fs) cache slugs) =
     cache \<union> {t. t \<noteq> [] \<and> (\<exists>s \<in> set slugs. readFileSync fs (mdxPath dir s) = Inr t)}"
proof (induction slugs arbitrary: cache)
  case Nil
  show ?case by simp
next
  case (Cons s slugs)
  show ?case
    unfolding loadAll_Cons fst_conv Cons loadBySlug_cache
    by (auto split: sum.splits)
qed

text \<open>
  Once every text of the directory is in the cache, a load is answered from the cache and
  leaves it as it is.
\<close>

lemma loadAll_from_cache:
  assumes "\<forall>s \<in> set slugs. \<forall>t. readFileSync fs (mdxPath dir s) = Inr t \<and> t \<noteq> [] \<longrightarrow> t \<in> cache"
    and "\<forall>s \<in> set slugs. \<forall>t. readFileSync fs (mdxPath dir s) = Inr t \<and> t \<noteq> [] \<longrightarrow> t \<in> cache'"
  shows "snd (loadAll (loadBySlug dir parse noKeys fs) cache slugs) =
         snd (loadAll (loadBySlug dir parse noKeys fs) cache' slugs)"
  using assms
proof (induction slugs arbitrary: cache cache')
  case Nil
  show ?case by simp
next
  case (Cons s slugs)
  let ?g = "loadBySlug dir parse noKeys fs"
  have here: "snd (?g cache s) = snd (?g cache' s)"
    using Cons(2,3) by (auto simp: loadBySlug_def matter_def split: sum.splits prod.splits)
  have c: "\<forall>s' \<in> set slugs. \<forall>t. readFileSync fs (mdxPath dir s') = Inr t \<and> t \<noteq> [] \<longrightarrow>
             t \<in> fst (?g cache s)"
    using Cons(2) by (auto simp: loadBySlug_cache split: sum.splits)
  have c': "\<forall>s' \<in> set slugs. \<forall>t. readFileSync fs (mdxPath dir s') = Inr t \<and> t \<noteq> [] \<longrightarrow>
             t \<in> fst (?g cache' s)"
    using Cons(3) by (auto simp: loadBySlug_cache split: sum.splits)
  show ?case
    unfolding loadAll_Cons using here Cons(1) [OF c c'] by simp
qed

text \<open>Where every file that can be read parses, the records do not depend on the cache.\<close>

lemma loadAll_all_parse:
  assumes "\<forall>s \<in> set slugs. \<forall>t. readFileSync fs (mdxPath dir s) = Inr t \<longrightarrow> (\<exists>f. parse t = Inr f)"
  shows "snd (loadAll (loadBySlug dir parse noKeys fs) cache slugs) =
         snd (loadAll (loadBySlug dir parse noKeys fs) cache' slugs)"
  using assms
proof (induction slugs arbitrary: cache cache')
  case Nil
  show ?case by simp
next
  case (Cons s slugs)
  let ?g = "loadBySlug dir parse noKeys fs"
  have here: "snd (?g cache s) = snd (?g cache' s)"
    using Cons(2)
    by (auto simp: loadBySlug_def matter_def cachedFile_def split: sum.splits prod.splits)
  have r: "\<forall>s \<in> set slugs. \<forall>t. readFileSync fs (mdxPath dir s) = Inr t \<longrightarrow> (\<exists>f. parse t = Inr f)"
    using Cons(2) by simp
  show ?case
    unfolding loadAll_Cons using here Cons(1) [OF r] by simp
qed

subsection \<open>What a loader leaves of the file system\<close>

lemma getAllVentureSlugs_fst: "fst (getAllVentureSlugs fs) = fs"
  by (simp add: getAllVentureSlugs_def split: sum.splits)

lemma getAllExperienceSlugs_fst: "fst (getAllExperienceSlugs fs) = fs"
  by (simp add: getAllExperienceSlugs_def split: sum.splits)

lemma getAllPostSlugs_fst:
  "fst (getAllPostSlugs fs) =
     (if existsSync fs POSTS_PATH then fs else fst (mkdirSync POSTS_PATH fs))"
  by (cases "mkdirSync POSTS_PATH fs") (auto simp: getAllPostSlugs_def split: sum.splits)

lemma getAllVentures_fileSystem:
  "fileSystem (fst (getAllVentures arraySort parse w)) = fileSystem w"
  using getAllVentureSlugs_fst [of "fileSystem w"]
  by (cases "getAllVentureSlugs (fileSystem w)")
     (auto simp: getAllVentures_def split: sum.splits prod.splits)

lemma getAllExperiences_fileSystem:
  "fileSystem (fst (getAllExperiences arraySort parse w)) = fileSystem w"
  using getAllExperienceSlugs_fst [of "fileSystem w"]
  by (cases "getAllExperienceSlugs (fileSystem w)")
     (auto simp: getAllExperiences_def split: sum.splits prod.splits)

lemma getAllPosts_fileSystem:
  "fileSystem (fst (getAllPosts arraySort parse parseDate inc w)) =
     fst (getAllPostSlugs (fileSystem w))"
  by (cases "getAllPostSlugs (fileSystem w)")
     (auto simp: getAllPosts_def split: sum.splits prod.splits)

text \<open>A loader whose directory can be listed returns the sorted records of the load.\<close>

lemma getAllVentures_listed:
  assumes "getAllVentureSlugs (fileSystem w) = (fs', Inr slugs)"
  shows "getAllVentures arraySort parse w =
     (\<lparr>fileSystem = fs',
       matterCache = fst (loadAll (getVentureBySlug parse fs') (matterCache w) slugs)\<rparr>,
      Inr (arraySort ventureCompare
             (snd (loadAll (getVentureBySlug parse fs') (matterCache w) slugs))))"
  using assms by (simp add: getAllVentures_def split: prod.splits)

lemma getAllExperiences_listed:
  assumes "getAllExperienceSlugs (fileSystem w) = (fs', Inr slugs)"
  shows "getAllExperiences arraySort parse w =
     (\<lparr>fileSystem = fs',
       matterCache = fst (loadAll (getExperienceBySlug parse fs') (matterCache w) slugs)\<rparr>,
      Inr (arraySort experienceCompare
             (snd (loadAll (getExperienceBySlug parse fs') (matterCache w) slugs))))"
  using assms by (simp add: getAllExperiences_def split: prod.splits)

lemma getAllPosts_listed:
  assumes "getAllPostSlugs (fileSystem w) = (fs', Inr slugs)"
  shows "getAllPosts arraySort parse parseDate inc w =
     (\<lparr>fileSystem = fs',
       matterCache = fst (loadAll (getPostBySlug parse fs') (matterCache w) slugs)\<rparr>,
      Inr (arraySort (postCompare parseDate)
             (filter (\<lambda>post. inc \<or> b_published (frontmatter post) \<noteq> Some False)
                (snd (loadAll (getPostBySlug parse fs') (matterCache w) slugs)))))"
  using assms by (simp add: getAllPosts_def split: prod.splits)

lemma getAllVentures_Inr:
  assumes "getAllVentures arraySort parse w = (w', Inr vs)"
  shows "\<exists>slugs. getAllVentureSlugs (fileSystem w) = (fileSystem w', Inr slugs) \<and>
           vs = arraySort ventureCompare
                  (snd (loadAll (getVentureBySlug parse (fileSystem w')) (matterCache w) slugs))"
proof (cases "getAllVentureSlugs (fileSystem w)")
  case (Pair fs' r)
  show ?thesis
  proof (cases r)
    case (Inl e)
    then show ?thesis using assms Pair by (simp add: getAllVentures_def)
  next
    case (Inr slugs)
    then have l: "getAllVentureSlugs (fileSystem w) = (fs', Inr slugs)" using Pair by simp
    show ?thesis
      using assms l unfolding getAllVentures_listed [OF l] by auto
  qed
qed


text \<open>Creating the blog directory when nothing is at its path: the three outcomes.\<close>

lemma mkdirSync_posts:
  assumes "fs POSTS_PATH = None"
  shows "mkdirSync POSTS_PATH fs =
     (case fs [''content''] of
        Some (Dir names) \<Rightarrow>
          (fs([''content''] \<mapsto> Dir (names @ [''blog'']), POSTS_PATH \<mapsto> Dir []), Inr ())
      | Some (File t) \<Rightarrow> (fs, Inl ENOTDIR)
      | None \<Rightarrow>
          (case fs [] of
             Some (Dir names) \<Rightarrow>
               (fs([] \<mapsto> Dir (names @ [''content'']), [''content''] \<mapsto> Dir [''blog''],
                   POSTS_PATH \<mapsto> Dir []), Inr ())
           | _ \<Rightarrow> (fs, Inl ENOTDIR)))"
  using assms unfolding mkdirSync_def POSTS_PATH_def
  by (auto split: option.splits node.splits)

lemma mkdirSync_posts_created:
  assumes "fs POSTS_PATH = None" and "mkdirSync POSTS_PATH fs = (fs', Inr u)"
  shows "fs' POSTS_PATH = Some (Dir [])"
  using assms(2) unfolding mkdirSync_posts [of fs, OF assms(1)]
  by (auto split: option.splits node.splits)

lemma mkdirSync_posts_failed:
  assumes "fs POSTS_PATH = None" and "mkdirSync POSTS_PATH fs = (fs', Inl e)"
  shows "fs' = fs"
  using assms(2) unfolding mkdirSync_posts [of fs, OF assms(1)]
  by (auto split: option.splits node.splits)

lemma mkdirSync_posts_files:
  assumes "fs POSTS_PATH = None"
  shows "(fst (mkdirSync POSTS_PATH fs) p = Some (File t)) = (fs p = Some (File t))"
  unfolding mkdirSync_posts [of fs, OF assms] using assms
  by (auto simp: POSTS_PATH_def split: option.splits node.splits)

lemma slugsOf_Nil: "slugsOf [] = []"
  by (simp add: slugsOf_def)

lemma getAllPostSlugs_again:
  assumes "getAllPostSlugs fs = (fs', r)"
  shows "getAllPostSlugs fs' = (fs', r)"
proof (cases "existsSync fs POSTS_PATH")
  case True
  then have "fs' = fs"
    using assms by (auto simp: getAllPostSlugs_def split: sum.splits)
  then show ?thesis using assms by simp
next
  case False
  then have none: "fs POSTS_PATH = None" by (simp add: existsSync_def)
  obtain fs1 r1 where m: "mkdirSync POSTS_PATH fs = (fs1, r1)"
    by (cases "mkdirSync POSTS_PATH fs")
  show ?thesis
  proof (cases r1)
    case (Inl e)
    then have "fs1 = fs" using mkdirSync_posts_failed [of fs, OF none] m by simp
    moreover have "fs' = fs1" using assms False m Inl by (simp add: getAllPostSlugs_def)
    ultimately show ?thesis using assms by simp
  next
    case (Inr u)
    then have d: "fs1 POSTS_PATH = Some (Dir [])"
      using mkdirSync_posts_created [of fs, OF none] m by simp
    have "fs' = fs1" and "r = Inr []"
      using assms False m Inr by (simp_all add: getAllPostSlugs_def)
    then show ?thesis
      using d by (simp add: getAllPostSlugs_def existsSync_def readdirSync_def slugsOf_Nil)
  qed
qed

text \<open>
  Where the directory of a category is missing, the loaders of the ventures and of the
  experiences return the empty list, and so does the loader of the posts when it could
  create the directory.
\<close>

lemma missing_directory_empty:
  "(\<not> existsSync (fileSystem w) venturesDirectory \<longrightarrow>
      conformingSort vsort \<longrightarrow> getAllVentures vsort vparse w = (w, Inr [])) \<and>
   (\<not> existsSync (fileSystem w) experiencesDirectory \<longrightarrow>
      conformingSort esort \<longrightarrow> getAllExperiences esort eparse w = (w, Inr [])) \<and>
   (\<not> existsSync (fileSystem w) POSTS_PATH \<and> snd (mkdirSync POSTS_PATH (fileSystem w)) = Inr () \<longrightarrow>
      conformingSort psort \<longrightarrow> snd (getAllPosts psort pparse parseDate inc w) = Inr [])"
proof (intro conjI impI)
  assume "\<not> existsSync (fileSystem w) venturesDirectory" and s: "conformingSort vsort"
  then have "getAllVentureSlugs (fileSystem w) = (fileSystem w, Inr [])"
    by (simp add: getAllVentureSlugs_def)
  from getAllVentures_listed [OF this, of vsort vparse]
  show "getAllVentures vsort vparse w = (w, Inr [])"
    using conformingSort_mset [OF s, of ventureCompare "[]"] by simp
next
  assume "\<not> existsSync (fileSystem w) experiencesDirectory" and s: "conformingSort esort"
  then have "getAllExperienceSlugs (fileSystem w) = (fileSystem w, Inr [])"
    by (simp add: getAllExperienceSlugs_def)
  from getAllExperiences_listed [OF this, of esort eparse]
  show "getAllExperiences esort eparse w = (w, Inr [])"
    using conformingSort_mset [OF s, of experienceCompare "[]"] by simp
next
  assume h: "\<not> existsSync (fileSystem w) POSTS_PATH \<and> snd (mkdirSync POSTS_PATH (fileSystem w)) = Inr ()"
    and s: "conformingSort psort"
  obtain fs' where "mkdirSync POSTS_PATH (fileSystem w) = (fs', Inr ())"
    using h by (cases "mkdirSync POSTS_PATH (fileSystem w)") auto
  then have "getAllPostSlugs (fileSystem w) = (fs', Inr [])"
    using h by (simp add: getAllPostSlugs_def)
  from getAllPosts_listed [OF this, of psort pparse parseDate inc]
  show "snd (getAllPosts psort pparse parseDate inc w) = Inr []"
    using conformingSort_mset [OF s, of "postCompare parseDate" "[]"] by simp
qed

lemma examplePosts_slugs:
  "getAllPostSlugs examplePostsFs = (examplePostsFs, Inr [''a'', ''b'', ''c'', ''d'', ''e''])"
proof -
  have e: "existsSync examplePostsFs POSTS_PATH" by code_simp
  have l: "snd (getAllPostSlugs examplePostsFs) = Inr [''a'', ''b'', ''c'', ''d'', ''e'']"
    by code_simp
  show ?thesis using e l by (simp add: prod_eq_iff getAllPostSlugs_fst)
qed

section \<open>The order of the ventures\<close>

text \<open>
  Claim C1, as amended: \<open>getAllVentures\<close> returns the records it loaded in ascending
  order of \<open>order ?? 999\<close>, stably (so the explicit orders 3, 1, 2 come out as 1, 2, 3), and
  a record with no \<open>order\<close> field sorts after every record whose explicit order is below
  the default 999.
\<close>

theorem getAllVentures_order:
  assumes "conformingSort arraySort"
    and "getAllVentures arraySort parse w = (w', Inr vs)"
  shows "sorted (map ventureOrder vs) \<and>
         (\<forall>i j k. i < length vs \<and> j < length vs \<and>
                  v_order (frontmatter (vs ! i)) = Some k \<and> k < 999 \<and>
                  v_order (frontmatter (vs ! j)) = None \<longrightarrow> i < j) \<and>
         (\<exists>slugs. getAllVentureSlugs (fileSystem w) = (fileSystem w', Inr slugs) \<and>
                  vs = sort_key ventureOrder
                         (snd (loadAll (getVentureBySlug parse (fileSystem w')) (matterCache w)
                                 slugs)))"
proof -
  from getAllVentures_Inr [OF assms(2)] obtain slugs where
    slugs: "getAllVentureSlugs (fileSystem w) = (fileSystem w', Inr slugs)" and
    vs: "vs = sort_key ventureOrder
                (snd (loadAll (getVentureBySlug parse (fileSystem w')) (matterCache w) slugs))"
    by (auto simp: arraySort_ventureCompare [OF assms(1)])
  have srt: "sorted (map ventureOrder vs)"
    unfolding vs by (rule sorted_sort_key)
  have late: "i < j"
    if h: "i < length vs" "j < length vs" "v_order (frontmatter (vs ! i)) = Some k" "k < 999"
          "v_order (frontmatter (vs ! j)) = None" for i j k
  proof (rule ccontr)
    assume "\<not> i < j"
    then have "j \<le> i" by simp
    then have "map ventureOrder vs ! j \<le> map ventureOrder vs ! i"
      using srt h(1) by (simp add: sorted_iff_nth_mono del: nth_map)
    then have "ventureOrder (vs ! j) \<le> ventureOrder (vs ! i)"
      using h(1,2) by simp
    then show False using h(3,4,5) by (simp add: ventureOrder_def)
  qed
  show ?thesis using srt late slugs vs by blast
qed

text \<open>
  The theorem at a directory of four ventures, enumerated as: no header, order 3, order 1,
  order 2.
\<close>

theorem getAllVentures_order_witness:
  "conformingSort (stableSort :: (Venture \<Rightarrow> Venture \<Rightarrow> number) \<Rightarrow> Venture list \<Rightarrow> Venture list) \<and>
   snd (getAllVentures stableSort exampleVentureParse (freshWorld exampleVenturesFs)) =
     Inr [\<lparr>slug = ''y'', frontmatter = noVentureKeys\<lparr>v_order := Some 1\<rparr>, content = ''''\<rparr>,
          \<lparr>slug = ''z'', frontmatter = noVentureKeys\<lparr>v_order := Some 2\<rparr>, content = ''''\<rparr>,
          \<lparr>slug = ''x'', frontmatter = noVentureKeys\<lparr>v_order := Some 3\<rparr>, content = ''''\<rparr>,
          \<lparr>slug = ''n'', frontmatter = noVentureKeys, content = ''No header here''\<rparr>] \<and>
   sorted (map ventureOrder
       [\<lparr>slug = ''y'', frontmatter = noVentureKeys\<lparr>v_order := Some 1\<rparr>, content = ''''\<rparr>,
        \<lparr>slug = ''z'', frontmatter = noVentureKeys\<lparr>v_order := Some 2\<rparr>, content = ''''\<rparr>,
        \<lparr>slug = ''x'', frontmatter = noVentureKeys\<lparr>v_order := Some 3\<rparr>, content = ''''\<rparr>,
        \<lparr>slug = ''n'', frontmatter = noVentureKeys, content = ''No header here''\<rparr>])"
proof -
  define vs :: "Venture list" where "vs =
     [\<lparr>slug = ''y'', frontmatter = noVentureKeys\<lparr>v_order := Some 1\<rparr>, content = ''''\<rparr>,
      \<lparr>slug = ''z'', frontmatter = noVentureKeys\<lparr>v_order := Some 2\<rparr>, content = ''''\<rparr>,
      \<lparr>slug = ''x'', frontmatter = noVentureKeys\<lparr>v_order := Some 3\<rparr>, content = ''''\<rparr>,
      \<lparr>slug = ''n'', frontmatter = noVentureKeys, content = ''No header here''\<rparr>]"
  have c: "conformingSort (stableSort :: (Venture \<Rightarrow> Venture \<Rightarrow> number) \<Rightarrow> Venture list \<Rightarrow> Venture list)"
    by (rule conformingSort_stableSort)
  have r: "snd (getAllVentures stableSort exampleVentureParse (freshWorld exampleVenturesFs)) = Inr vs"
    unfolding vs_def by code_simp
  then have h: "getAllVentures stableSort exampleVentureParse (freshWorld exampleVenturesFs) =
      (fst (getAllVentures stableSort exampleVentureParse (freshWorld exampleVenturesFs)), Inr vs)"
    by (simp add: prod_eq_iff)
  have "sorted (map ventureOrder vs)"
    using getAllVentures_order [OF c h] by (rule conjunct1)
  then show ?thesis using c r unfolding vs_def by (intro conjI)
qed

text \<open>
  The claim as it was stated fails where an explicit order is above the default: of two
  ventures, the first with \<open>order: 1000\<close> and the second with no \<open>order\<close> field, the one
  without the field comes out first, with the sort of the engine as with the stable sort.
\<close>

theorem default_order_counterexample:
  "snd (getAllVentures v8SortShort exampleVentureParse (freshWorld lateOrderFs)) =
     Inr [\<lparr>slug = ''b'', frontmatter = noVentureKeys, content = ''No header here''\<rparr>,
          \<lparr>slug = ''a'', frontmatter = noVentureKeys\<lparr>v_order := Some 1000\<rparr>, content = ''''\<rparr>] \<and>
   snd (getAllVentures stableSort exampleVentureParse (freshWorld lateOrderFs)) =
     Inr [\<lparr>slug = ''b'', frontmatter = noVentureKeys, content = ''No header here''\<rparr>,
          \<lparr>slug = ''a'', frontmatter = noVentureKeys\<lparr>v_order := Some 1000\<rparr>, content = ''''\<rparr>] \<and>
   v_order noVentureKeys = None"
  by code_simp

section \<open>The published flag of the posts\<close>

text \<open>
  Claim C2: \<open>getAllPosts\<close> with the default argument includes every loaded record whose
  header has no \<open>published\<close> key and excludes every record with \<open>published: false\<close>; with
  \<open>includeUnpublished = true\<close> the records with \<open>published: false\<close> are included as well.
\<close>

theorem getAllPosts_published_filter:
  assumes "conformingSort arraySort"
    and "getAllPostSlugs (fileSystem w) = (fs', Inr slugs)"
    and "p \<in> set (snd (loadAll (getPostBySlug parse fs') (matterCache w) slugs))"
  shows "\<exists>w' posts allPosts.
           getAllPosts arraySort parse parseDate False w = (w', Inr posts) \<and>
           getAllPosts arraySort parse parseDate True w = (w', Inr allPosts) \<and>
           (b_published (frontmatter p) = None \<longrightarrow> p \<in> set posts) \<and>
           (b_published (frontmatter p) = Some False \<longrightarrow> p \<notin> set posts \<and> p \<in> set allPosts) \<and>
           set posts = {q \<in> set allPosts. b_published (frontmatter q) \<noteq> Some False}"
proof -
  let ?loaded = "snd (loadAll (getPostBySlug parse fs') (matterCache w) slugs)"
  let ?w' = "\<lparr>fileSystem = fs',
              matterCache = fst (loadAll (getPostBySlug parse fs') (matterCache w) slugs)\<rparr>"
  let ?posts = "arraySort (postCompare parseDate)
                  (filter (\<lambda>post. b_published (frontmatter post) \<noteq> Some False) ?loaded)"
  let ?all = "arraySort (postCompare parseDate) ?loaded"
  have d: "getAllPosts arraySort parse parseDate False w = (?w', Inr ?posts)"
    unfolding getAllPosts_listed [OF assms(2)] by simp
  have a: "getAllPosts arraySort parse parseDate True w = (?w', Inr ?all)"
    unfolding getAllPosts_listed [OF assms(2)] by simp
  have sp: "set ?posts = {q \<in> set ?loaded. b_published (frontmatter q) \<noteq> Some False}"
    by (simp add: conformingSort_set [OF assms(1)])
  have sa: "set ?all = set ?loaded"
    by (simp add: conformingSort_set [OF assms(1)])
  have 1: "b_published (frontmatter p) = None \<longrightarrow> p \<in> set ?posts"
    unfolding sp using assms(3) by simp
  have 2: "b_published (frontmatter p) = Some False \<longrightarrow> p \<notin> set ?posts \<and> p \<in> set ?all"
    unfolding sp sa using assms(3) by simp
  have 3: "set ?posts = {q \<in> set ?all. b_published (frontmatter q) \<noteq> Some False}"
    unfolding sp sa by (rule refl)
  show ?thesis
    by (rule exI [of _ ?w'], rule exI [of _ ?posts], rule exI [of _ ?all]) (intro conjI d a 1 2 3)
qed

text \<open>
  The theorem at the example directory: the post \<open>a\<close> has no \<open>published\<close> key, the post
  \<open>b\<close> has \<open>published: false\<close>.
\<close>

theorem getAllPosts_published_filter_witness:
  "conformingSort (stableSort :: (BlogPost \<Rightarrow> BlogPost \<Rightarrow> number) \<Rightarrow> BlogPost list \<Rightarrow> BlogPost list) \<and>
   snd (getAllPostSlugs examplePostsFs) = Inr [''a'', ''b'', ''c'', ''d'', ''e''] \<and>
   \<lparr>slug = ''a'',
      frontmatter = noBlogKeys\<lparr>b_title := Some ''Hello'', b_date := Some ''2024-01-01''\<rparr>,
      content = ''Hi''\<rparr>
     \<in> set (projr (snd (getAllPosts stableSort examplePostParse exampleParseDate False
                          (freshWorld examplePostsFs)))) \<and>
   \<lparr>slug = ''b'',
      frontmatter = noBlogKeys\<lparr>b_date := Some ''2024-02-01'', b_published := Some False\<rparr>,
      content = ''Draft''\<rparr>
     \<notin> set (projr (snd (getAllPosts stableSort examplePostParse exampleParseDate False
                          (freshWorld examplePostsFs)))) \<and>
   \<lparr>slug = ''b'',
      frontmatter = noBlogKeys\<lparr>b_date := Some ''2024-02-01'', b_published := Some False\<rparr>,
      content = ''Draft''\<rparr>
     \<in> set (projr (snd (getAllPosts stableSort examplePostParse exampleParseDate True
                          (freshWorld examplePostsFs))))"
proof -
  define pa :: BlogPost where "pa = \<lparr>slug = ''a'',
      frontmatter = noBlogKeys\<lparr>b_title := Some ''Hello'', b_date := Some ''2024-01-01''\<rparr>,
      content = ''Hi''\<rparr>"
  define pb :: BlogPost where "pb = \<lparr>slug = ''b'',
      frontmatter = noBlogKeys\<lparr>b_date := Some ''2024-02-01'', b_published := Some False\<rparr>,
      content = ''Draft''\<rparr>"
  define pe :: BlogPost where "pe = \<lparr>slug = ''e'',
      frontmatter = noBlogKeys\<lparr>b_title := Some ''Later'', b_date := Some ''2024-03-01''\<rparr>,
      content = ''Yo''\<rparr>"
  have c: "conformingSort (stableSort :: (BlogPost \<Rightarrow> BlogPost \<Rightarrow> number) \<Rightarrow> BlogPost list \<Rightarrow> BlogPost list)"
    by (rule conformingSort_stableSort)
  have s: "getAllPostSlugs (fileSystem (freshWorld examplePostsFs)) =
             (examplePostsFs, Inr [''a'', ''b'', ''c'', ''d'', ''e''])"
    using examplePosts_slugs by (simp add: freshWorld_def)
  have sl: "snd (getAllPostSlugs examplePostsFs) = Inr [''a'', ''b'', ''c'', ''d'', ''e'']"
    using examplePosts_slugs by simp
  have l: "snd (loadAll (getPostBySlug examplePostParse examplePostsFs)
                  (matterCache (freshWorld examplePostsFs)) [''a'', ''b'', ''c'', ''d'', ''e''])
           = [pa, pb, pe]"
    unfolding pa_def pb_def pe_def by code_simp
  have ia: "pa \<in> set (snd (loadAll (getPostBySlug examplePostParse examplePostsFs)
                  (matterCache (freshWorld examplePostsFs)) [''a'', ''b'', ''c'', ''d'', ''e'']))"
    unfolding l by simp
  have ib: "pb \<in> set (snd (loadAll (getPostBySlug examplePostParse examplePostsFs)
                  (matterCache (freshWorld examplePostsFs)) [''a'', ''b'', ''c'', ''d'', ''e'']))"
    unfolding l by simp
  have na: "b_published (frontmatter pa) = None" by (simp add: pa_def noBlogKeys_def)
  have nb: "b_published (frontmatter pb) = Some False" by (simp add: pb_def)
  obtain w1 posts allPosts where
    d: "getAllPosts stableSort examplePostParse exampleParseDate False (freshWorld examplePostsFs)
          = (w1, Inr posts)"
    and m: "b_published (frontmatter pa) = None \<longrightarrow> pa \<in> set posts"
    using getAllPosts_published_filter [OF c s ia, of exampleParseDate]
    by (elim exE conjE) (rule that, assumption+)
  obtain w2 posts' allPosts' where
    d': "getAllPosts stableSort examplePostParse exampleParseDate False (freshWorld examplePostsFs)
          = (w2, Inr posts')"
    and a': "getAllPosts stableSort examplePostParse exampleParseDate True (freshWorld examplePostsFs)
          = (w2, Inr allPosts')"
    and m': "b_published (frontmatter pb) = Some False \<longrightarrow> pb \<notin> set posts' \<and> pb \<in> set allPosts'"
    using getAllPosts_published_filter [OF c s ib, of exampleParseDate]
    by (elim exE conjE) (rule that, assumption+)
  have 1: "pa \<in> set (projr (snd (getAllPosts stableSort examplePostParse exampleParseDate False
                          (freshWorld examplePostsFs))))"
    unfolding d using m na by simp
  have 2: "pb \<notin> set (projr (snd (getAllPosts stableSort examplePostParse exampleParseDate False
                          (freshWorld examplePostsFs))))"
    unfolding d' using m' nb by simp
  have 3: "pb \<in> set (projr (snd (getAllPosts stableSort examplePostParse exampleParseDate True
                          (freshWorld examplePostsFs))))"
    unfolding a' using m' nb by simp
  show ?thesis
    using c sl 1 2 3 unfolding pa_def pb_def by (intro conjI)
qed

text \<open>The default listing of the example directory, newest first.\<close>

lemma examplePosts_listing:
  "snd (getAllPosts v8SortShort examplePostParse exampleParseDate False (freshWorld examplePostsFs)) =
     Inr [\<lparr>slug = ''e'',
            frontmatter = noBlogKeys\<lparr>b_title := Some ''Later'', b_date := Some ''2024-03-01''\<rparr>,
            content = ''Yo''\<rparr>,
          \<lparr>slug = ''a'',
            frontmatter = noBlogKeys\<lparr>b_title := Some ''Hello'', b_date := Some ''2024-01-01''\<rparr>,
            content = ''Hi''\<rparr>]"
  by code_simp

section \<open>The order of the experiences\<close>




section \<open>Files that fail to load\<close>

lemma getAllVentures_records:
  assumes "conformingSort arraySort"
    and "getAllVentureSlugs (fileSystem w) = (fs', Inr slugs)"
  shows "\<exists>w' vs. getAllVentures arraySort parse w = (w', Inr vs) \<and>
           set vs = set (snd (loadAll (loadBySlug venturesDirectory parse noVentureKeys fs')
                               (matterCache w) slugs))"
proof -
  have "getVentureBySlug parse fs' = loadBySlug venturesDirectory parse noVentureKeys fs'"
    by (intro ext) (simp add: getVentureBySlug_def)
  then show ?thesis
    unfolding getAllVentures_listed [OF assms(2)]
    by (simp add: conformingSort_set [OF assms(1)])
qed

lemma getAllExperiences_records:
  assumes "conformingSort arraySort"
    and "getAllExperienceSlugs (fileSystem w) = (fs', Inr slugs)"
  shows "\<exists>w' es. getAllExperiences arraySort parse w = (w', Inr es) \<and>
           set es = set (snd (loadAll (loadBySlug experiencesDirectory parse noExperienceKeys fs')
                               (matterCache w) slugs))"
proof -
  have "getExperienceBySlug parse fs' = loadBySlug experiencesDirectory parse noExperienceKeys fs'"
    by (intro ext) (simp add: getExperienceBySlug_def)
  then show ?thesis
    unfolding getAllExperiences_listed [OF assms(2)]
    by (simp add: conformingSort_set [OF assms(1)])
qed




section \<open>The file system after a load\<close>

text \<open>
  Claim C6, as amended: the loaders of the ventures and of the experiences leave the
  file system as they found it, and so does the loader of the posts whenever something
  exists at the path of the blog directory. When nothing exists there,
  \<open>getAllPostSlugs\<close> (and \<open>getAllPosts\<close>, which calls it) creates the directory with
  \<open>mkdirSync\<close>, and the file system after the call is the one that call leaves. No loader
  creates, changes or deletes a file.
\<close>

theorem loaders_frame:
  "fst (getAllVentureSlugs (fileSystem w)) = fileSystem w \<and>
   fileSystem (fst (getAllVentures vsort vparse w)) = fileSystem w \<and>
   fst (getAllExperienceSlugs (fileSystem w)) = fileSystem w \<and>
   fileSystem (fst (getAllExperiences esort eparse w)) = fileSystem w \<and>
   (existsSync (fileSystem w) POSTS_PATH \<longrightarrow>
      fst (getAllPostSlugs (fileSystem w)) = fileSystem w \<and>
      fileSystem (fst (getAllPosts psort pparse parseDate inc w)) = fileSystem w) \<and>
   (\<not> existsSync (fileSystem w) POSTS_PATH \<longrightarrow>
      fst (getAllPostSlugs (fileSystem w)) = fst (mkdirSync POSTS_PATH (fileSystem w)) \<and>
      fileSystem (fst (getAllPosts psort pparse parseDate inc w)) =
        fst (mkdirSync POSTS_PATH (fileSystem w))) \<and>
   (\<forall>p t. (fileSystem (fst (getAllPosts psort pparse parseDate inc w)) p = Some (File t)) =
          (fileSystem w p = Some (File t)))"
proof -
  have files: "(fst (getAllPostSlugs (fileSystem w)) p = Some (File t)) =
               (fileSystem w p = Some (File t))" for p t
  proof (cases "existsSync (fileSystem w) POSTS_PATH")
    case True
    then show ?thesis by (simp add: getAllPostSlugs_fst)
  next
    case False
    then have "fileSystem w POSTS_PATH = None" by (simp add: existsSync_def)
    then show ?thesis using False by (simp add: getAllPostSlugs_fst mkdirSync_posts_files)
  qed
  show ?thesis
    by (simp add: getAllVentureSlugs_fst getAllVentures_fileSystem getAllExperienceSlugs_fst
        getAllExperiences_fileSystem getAllPosts_fileSystem getAllPostSlugs_fst
        files [unfolded getAllPostSlugs_fst])
qed

text \<open>
  The theorem at the example directory of posts, where the blog directory exists, and at
  an empty working directory, where it does not.
\<close>

theorem loaders_frame_witness:
  "existsSync examplePostsFs POSTS_PATH \<and>
   fileSystem (fst (getAllPosts stableSort examplePostParse exampleParseDate False
                      (freshWorld examplePostsFs))) = examplePostsFs \<and>
   \<not> existsSync bareFs POSTS_PATH \<and>
   fileSystem (fst (getAllPosts stableSort examplePostParse exampleParseDate False
                      (freshWorld bareFs))) = fst (mkdirSync POSTS_PATH bareFs) \<and>
   fileSystem (fst (getAllVentures stableSort exampleVentureParse (freshWorld exampleVenturesFs)))
     = exampleVenturesFs"
proof -
  have e: "existsSync examplePostsFs POSTS_PATH" by code_simp
  have n: "\<not> existsSync bareFs POSTS_PATH" by code_simp
  have 1: "fileSystem (fst (getAllPosts stableSort examplePostParse exampleParseDate False
                      (freshWorld examplePostsFs))) = examplePostsFs"
    using e loaders_frame [where w = "freshWorld examplePostsFs" and pparse = examplePostParse
        and parseDate = exampleParseDate and inc = False and psort = stableSort
        and vsort = stableSort and vparse = exampleVentureParse
        and esort = stableSort and eparse = exampleExperienceParse]
    by (simp add: freshWorld_def)
  have 2: "fileSystem (fst (getAllPosts stableSort examplePostParse exampleParseDate False
                      (freshWorld bareFs))) = fst (mkdirSync POSTS_PATH bareFs)"
    using n loaders_frame [where w = "freshWorld bareFs" and pparse = examplePostParse
        and parseDate = exampleParseDate and inc = False and psort = stableSort
        and vsort = stableSort and vparse = exampleVentureParse
        and esort = stableSort and eparse = exampleExperienceParse]
    by (simp add: freshWorld_def)
  have 3: "fileSystem (fst (getAllVentures stableSort exampleVentureParse
                              (freshWorld exampleVenturesFs))) = exampleVenturesFs"
    using loaders_frame [where w = "freshWorld exampleVenturesFs" and pparse = examplePostParse
        and parseDate = exampleParseDate and inc = False and psort = stableSort
        and vsort = stableSort and vparse = exampleVentureParse
        and esort = stableSort and eparse = exampleExperienceParse]
    by (simp add: freshWorld_def)
  show ?thesis using e 1 n 2 3 by (intro conjI)
qed

text \<open>
  The claim as it was stated fails for the posts: in a working directory with no
  \<open>content\<close> directory, \<open>getAllPostSlugs\<close> leaves a file system that is not the one it
  found, for the blog directory now exists.
\<close>

theorem posts_directory_created_counterexample:
  "\<not> existsSync bareFs POSTS_PATH \<and> fst (getAllPostSlugs bareFs) \<noteq> bareFs \<and>
   existsSync (fst (getAllPostSlugs bareFs)) POSTS_PATH"
proof (intro conjI)
  show n: "\<not> existsSync bareFs POSTS_PATH" by code_simp
  show e: "existsSync (fst (getAllPostSlugs bareFs)) POSTS_PATH" by code_simp
  show "fst (getAllPostSlugs bareFs) \<noteq> bareFs"
  proof
    assume "fst (getAllPostSlugs bareFs) = bareFs"
    then show False using n e by simp
  qed
qed

section \<open>A missing directory\<close>

text \<open>
  Claim C7: for every category, when its content directory does not exist the loader
  returns an empty collection and raises no error. The loaders of the ventures and of the
  experiences do so (lemma \<open>missing_directory_empty\<close>). The loader of the posts first
  calls \<open>mkdirSync\<close>, outside any \<open>try\<close>, and where that call throws the loader raises:
  in a working directory where \<open>content\<close> is a file, the blog directory does not exist and
  \<open>getAllPostSlugs\<close> and \<open>getAllPosts\<close> end with the error \<open>ENOTDIR\<close>.
\<close>

theorem posts_missing_directory_raises:
  "\<not> existsSync contentIsFileFs POSTS_PATH \<and>
   snd (getAllPostSlugs contentIsFileFs) = Inl ENOTDIR \<and>
   snd (getAllPosts arraySort parse parseDate includeUnpublished
          \<lparr>fileSystem = contentIsFileFs, matterCache = cache\<rparr>) = Inl ENOTDIR"
proof -
  have n: "contentIsFileFs POSTS_PATH = None" by code_simp
  have c: "contentIsFileFs [''content''] = Some (File ''not a directory'')" by code_simp
  have s: "getAllPostSlugs contentIsFileFs = (contentIsFileFs, Inl ENOTDIR)"
    using n c by (simp add: getAllPostSlugs_def existsSync_def mkdirSync_posts)
  show ?thesis using n s by (simp add: existsSync_def getAllPosts_def)
qed

section \<open>Loading twice\<close>

text \<open>
  After a call of \<open>getAllPosts\<close>, a further call changes neither the file system nor the
  cache, so from the second call on the output stays the same.
\<close>

lemma getAllPosts_state_settles:
  "fst (getAllPosts arraySort parse parseDate inc (fst (getAllPosts arraySort parse parseDate inc w)))
     = fst (getAllPosts arraySort parse parseDate inc w)"
proof (cases "getAllPostSlugs (fileSystem w)")
  case (Pair fs' r)
  note again = getAllPostSlugs_again [OF Pair]
  show ?thesis
  proof (cases r)
    case (Inl e)
    then show ?thesis using Pair again by (simp add: getAllPosts_def)
  next
    case (Inr slugs)
    have l: "getAllPostSlugs (fileSystem w) = (fs', Inr slugs)" using Pair Inr by simp
    define c1 where "c1 = fst (loadAll (getPostBySlug parse fs') (matterCache w) slugs)"
    have g: "getPostBySlug parse fs' = loadBySlug POSTS_PATH parse noBlogKeys fs'"
      by (intro ext) (simp add: getPostBySlug_def)
    have w1: "fst (getAllPosts arraySort parse parseDate inc w) =
                \<lparr>fileSystem = fs', matterCache = c1\<rparr>"
      unfolding getAllPosts_listed [OF l] c1_def by simp
    have l1: "getAllPostSlugs (fileSystem \<lparr>fileSystem = fs', matterCache = c1\<rparr>) = (fs', Inr slugs)"
      using again Inr by simp
    have "fst (loadAll (getPostBySlug parse fs') c1 slugs) = c1"
      unfolding c1_def g loadAll_cache by auto
    then have "fst (getAllPosts arraySort parse parseDate inc \<lparr>fileSystem = fs', matterCache = c1\<rparr>)
                 = \<lparr>fileSystem = fs', matterCache = c1\<rparr>"
      by (simp add: getAllPosts_listed [OF l1])
    then show ?thesis by (simp only: w1)
  qed
qed

lemma getAllPosts_settles:
  "snd (getAllPosts arraySort parse parseDate inc
          (fst (getAllPosts arraySort parse parseDate inc
                  (fst (getAllPosts arraySort parse parseDate inc w)))))
     = snd (getAllPosts arraySort parse parseDate inc
              (fst (getAllPosts arraySort parse parseDate inc w)))"
  by (simp add: getAllPosts_state_settles)

text \<open>
  Where every listed post that can be read parses, the second call returns what the first
  returned.
\<close>

lemma getAllPosts_twice_all_parse:
  assumes "getAllPostSlugs (fileSystem w) = (fs', Inr slugs)"
    and "\<forall>s \<in> set slugs. \<forall>t. readFileSync fs' (mdxPath POSTS_PATH s) = Inr t \<longrightarrow>
           (\<exists>f. parse t = Inr f)"
  shows "snd (getAllPosts arraySort parse parseDate inc
                (fst (getAllPosts arraySort parse parseDate inc w)))
           = snd (getAllPosts arraySort parse parseDate inc w)"
proof -
  define c1 where "c1 = fst (loadAll (getPostBySlug parse fs') (matterCache w) slugs)"
  have g: "getPostBySlug parse fs' = loadBySlug POSTS_PATH parse noBlogKeys fs'"
    by (intro ext) (simp add: getPostBySlug_def)
  have w1: "fst (getAllPosts arraySort parse parseDate inc w) =
              \<lparr>fileSystem = fs', matterCache = c1\<rparr>"
    unfolding getAllPosts_listed [OF assms(1)] c1_def by simp
  have l1: "getAllPostSlugs (fileSystem \<lparr>fileSystem = fs', matterCache = c1\<rparr>) = (fs', Inr slugs)"
    using getAllPostSlugs_again [OF assms(1)] by simp
  have "snd (loadAll (getPostBySlug parse fs') c1 slugs) =
        snd (loadAll (getPostBySlug parse fs') (matterCache w) slugs)"
    unfolding g by (rule loadAll_all_parse [OF assms(2)])
  then have "snd (getAllPosts arraySort parse parseDate inc \<lparr>fileSystem = fs', matterCache = c1\<rparr>)
             = snd (getAllPosts arraySort parse parseDate inc w)"
    by (simp add: getAllPosts_listed [OF l1] getAllPosts_listed [OF assms(1)])
  then show ?thesis by (simp only: w1)
qed

text \<open>
  Claim C9: two successive invocations of a \<open>getAll*\<close> loader on the same directory
  state return the same ordered output. The code does not do this where a listed file
  has a header that does not parse. With a blog directory whose one post is such a file,
  the first call of \<open>getAllPosts\<close> in a process drops the post and returns the empty list;
  the parser has by then put the text into its cache, as a file object with no key and
  the whole text as its body; the second call, on the same files, gets that object from
  the cache instead of an exception, and returns the post with an empty header.
\<close>

theorem getAllPosts_second_call_differs:
  "snd (getAllPosts v8SortShort examplePostParse exampleParseDate False
          (freshWorld malformedPostFs)) = Inr [] \<and>
   fileSystem (fst (getAllPosts v8SortShort examplePostParse exampleParseDate False
                      (freshWorld malformedPostFs))) = malformedPostFs \<and>
   snd (getAllPosts v8SortShort examplePostParse exampleParseDate False
          (fst (getAllPosts v8SortShort examplePostParse exampleParseDate False
                  (freshWorld malformedPostFs))))
     = Inr [\<lparr>slug = ''c'', frontmatter = noBlogKeys,
              content = mdxText [''title: [unclosed''] ''''\<rparr>]"
proof (intro conjI)
  show "snd (getAllPosts v8SortShort examplePostParse exampleParseDate False
          (freshWorld malformedPostFs)) = Inr []"
    by code_simp
  have "existsSync malformedPostFs POSTS_PATH" by code_simp
  then show "fileSystem (fst (getAllPosts v8SortShort examplePostParse exampleParseDate False
                      (freshWorld malformedPostFs))) = malformedPostFs"
    by (simp add: getAllPosts_fileSystem getAllPostSlugs_fst freshWorld_def)
  show "snd (getAllPosts v8SortShort examplePostParse exampleParseDate False
          (fst (getAllPosts v8SortShort examplePostParse exampleParseDate False
                  (freshWorld malformedPostFs))))
     = Inr [\<lparr>slug = ''c'', frontmatter = noBlogKeys,
              content = mdxText [''title: [unclosed''] ''''\<rparr>]"
    by code_simp
qed


end
